theory Spec2Isabelle
  imports Main "HOL-Library.List_Lexorder" "HOL-Library.Product_Lexorder"
begin

section \<open>Strings and errors\<close>

text \<open>
  A JavaScript string is a sequence of UTF-16 code units, the numbers below 65536 that
  \<open>charCodeAt\<close> returns; no operation of the program does arithmetic that leaves this
  range, so a code unit is kept as a natural number. \<open>Array.prototype.sort()\<close> without a
  comparator orders strings by their code units, which is the lexicographic order of
  lists.
\<close>

type_synonym code_unit = nat
type_synonym jsstring = "code_unit list"

definition js :: "string \<Rightarrow> jsstring" where
  "js s = map of_char s"

text \<open>
  Every \<open>throw\<close> of the source is a constructor:
  \<^item> \<open>URIError\<close>: \<open>encodeURIComponent\<close> on a lone surrogate;
  \<^item> \<open>NotConfigured\<close>: "API credentials not configured. Use setup_credentials tool first. ...";
  \<^item> \<open>NotAuthenticated\<close>: "Not authenticated for profile access. ...";
  \<^item> \<open>NoPendingOAuth\<close>: "No pending OAuth flow. Call start_auth first.";
  \<^item> \<open>OAuth2Failed status body\<close>: "OAuth2 token request failed: status body";
  \<^item> \<open>InvalidJson\<close>: \<open>response.json()\<close> rejects a body that is not the expected JSON;
  \<^item> \<open>RequestTokenFailed status body\<close>: "Failed to get request token: status body";
  \<^item> \<open>InvalidRequestTokenResponse body\<close>: "Invalid request token response: body";
  \<^item> \<open>AccessTokenFailed status body\<close>: "Failed to get access token: status body";
  \<^item> \<open>InvalidAccessTokenResponse body\<close>: "Invalid access token response: body".
\<close>

datatype error =
    URIError
  | NotConfigured
  | NotAuthenticated
  | NoPendingOAuth
  | OAuth2Failed nat jsstring
  | InvalidJson
  | RequestTokenFailed nat jsstring
  | InvalidRequestTokenResponse jsstring
  | AccessTokenFailed nat jsstring
  | InvalidAccessTokenResponse jsstring

text \<open>Truthiness of a string that may be \<open>undefined\<close> or \<open>null\<close>: absent and empty are falsy.\<close>

definition truthy :: "jsstring option \<Rightarrow> bool" where
  "truthy s = (case s of None \<Rightarrow> False | Some v \<Rightarrow> v \<noteq> [])"

section \<open>The signer (src/src/oauth1.ts)\<close>

subsection \<open>Built-ins used by \<open>percentEncode\<close>\<close>

definition hexDigitLower :: "nat \<Rightarrow> code_unit" where
  "hexDigitLower d = (if d < 10 then 48 + d else 97 + (d - 10))"

definition hexDigitUpper :: "nat \<Rightarrow> code_unit" where
  "hexDigitUpper d = (if d < 10 then 48 + d else 65 + (d - 10))"

text \<open>\<open>Number.prototype.toString(16)\<close> on a non-negative integer.\<close>

function toString16 :: "nat \<Rightarrow> jsstring" where
  "toString16 n =
     (if n < 16 then [hexDigitLower n]
      else toString16 (n div 16) @ [hexDigitLower (n mod 16)])"
  by pat_completeness auto
termination
  by (relation "measure id") auto

declare toString16.simps [simp del]

text \<open>
  \<open>String.prototype.toUpperCase()\<close> on the Basic Latin letters. The source applies it to
  hexadecimal digits and to HTTP method names; code units outside \<open>a\<close>..\<open>z\<close> are kept.
\<close>

definition upperUnit :: "code_unit \<Rightarrow> code_unit" where
  "upperUnit c = (if 97 \<le> c \<and> c \<le> 122 then c - 32 else c)"

definition toUpperCase :: "jsstring \<Rightarrow> jsstring" where
  "toUpperCase s = map upperUnit s"

text \<open>The octets of the UTF-8 encoding of a code point.\<close>

definition utf8 :: "nat \<Rightarrow> nat list" where
  "utf8 cp =
     (if cp < 128 then [cp]
      else if cp < 2048 then [192 + cp div 64, 128 + cp mod 64]
      else if cp < 65536 then
        [224 + cp div 4096, 128 + (cp div 64) mod 64, 128 + cp mod 64]
      else
        [240 + cp div 262144, 128 + (cp div 4096) mod 64,
         128 + (cp div 64) mod 64, 128 + cp mod 64])"

definition pctOctet :: "nat \<Rightarrow> jsstring" where
  "pctOctet b = [37, hexDigitUpper (b div 16), hexDigitUpper (b mod 16)]"

definition pctCodePoint :: "nat \<Rightarrow> jsstring" where
  "pctCodePoint cp = concat (map pctOctet (utf8 cp))"

text \<open>
  The characters \<open>encodeURIComponent\<close> leaves alone: letters, digits and
  \<open>- _ . ! ~ * ' ( )\<close>.
\<close>

definition isAlnum :: "code_unit \<Rightarrow> bool" where
  "isAlnum c \<longleftrightarrow> (65 \<le> c \<and> c \<le> 90) \<or> (97 \<le> c \<and> c \<le> 122) \<or> (48 \<le> c \<and> c \<le> 57)"

definition uriUnescaped :: "code_unit \<Rightarrow> bool" where
  "uriUnescaped c \<longleftrightarrow> isAlnum c \<or> c \<in> set [45, 95, 46, 33, 126, 42, 39, 40, 41]"

definition isHigh :: "code_unit \<Rightarrow> bool" where
  "isHigh c \<longleftrightarrow> 55296 \<le> c \<and> c \<le> 56319"

definition isLow :: "code_unit \<Rightarrow> bool" where
  "isLow c \<longleftrightarrow> 56320 \<le> c \<and> c \<le> 57343"

definition pairCodePoint :: "code_unit \<Rightarrow> code_unit \<Rightarrow> nat" where
  "pairCodePoint h l = 65536 + (h - 55296) * 1024 + (l - 56320)"

text \<open>
  \<open>encodeURIComponent\<close> (the Encode operation of ECMAScript): an unescaped code unit is
  copied; otherwise the code point at the position is read, an unpaired surrogate throws
  \<open>URIError\<close>, and each octet of its UTF-8 form is written as \<open>%XX\<close> in upper case.
\<close>

fun encodeURIComponent :: "jsstring \<Rightarrow> error + jsstring" where
  "encodeURIComponent [] = Inr []"
| "encodeURIComponent (c # cs) =
     (if uriUnescaped c then
        (case encodeURIComponent cs of Inl e \<Rightarrow> Inl e | Inr r \<Rightarrow> Inr (c # r))
      else if isLow c then Inl URIError
      else if isHigh c then
        (case cs of
           [] \<Rightarrow> Inl URIError
         | d # ds \<Rightarrow>
             if isLow d then
               (case encodeURIComponent ds of
                  Inl e \<Rightarrow> Inl e
                | Inr r \<Rightarrow> Inr (pctCodePoint (pairCodePoint c d) @ r))
             else Inl URIError)
      else
        (case encodeURIComponent cs of
           Inl e \<Rightarrow> Inl e
         | Inr r \<Rightarrow> Inr (pctCodePoint c @ r)))"

subsection \<open>\<open>percentEncode\<close>\<close>

text \<open>
  \<^verbatim>\<open>encodeURIComponent(str).replace(/[!'()*]/g, (c) => `%${c.charCodeAt(0).toString(16).toUpperCase()}`)\<close>
\<close>

definition replaceMark :: "code_unit \<Rightarrow> jsstring" where
  "replaceMark c =
     (if c \<in> set [33, 39, 40, 41, 42] then 37 # toUpperCase (toString16 c) else [c])"

definition percentEncode :: "jsstring \<Rightarrow> error + jsstring" where
  "percentEncode str =
     (case encodeURIComponent str of
        Inl e \<Rightarrow> Inl e
      | Inr r \<Rightarrow> Inr (concat (map replaceMark r)))"

subsection \<open>\<open>buildBaseString\<close>\<close>

text \<open>
  A \<open>Record<string, string>\<close> is an association list in which the first binding of a key
  is the property's value; an object has each key once. \<open>Array.prototype.join\<close> puts the
  separator between the elements.
\<close>

type_synonym params = "(jsstring \<times> jsstring) list"

definition objectKeys :: "params \<Rightarrow> jsstring list" where
  "objectKeys ps = remdups (map fst ps)"

definition getProp :: "params \<Rightarrow> jsstring \<Rightarrow> jsstring" where
  "getProp ps k = (case map_of ps k of Some v \<Rightarrow> v | None \<Rightarrow> js ''undefined'')"

fun join :: "jsstring \<Rightarrow> jsstring list \<Rightarrow> jsstring" where
  "join sep [] = []"
| "join sep [x] = x"
| "join sep (x # y # ys) = x @ sep @ join sep (y # ys)"

fun encodePairs :: "params \<Rightarrow> jsstring list \<Rightarrow> error + jsstring list" where
  "encodePairs ps [] = Inr []"
| "encodePairs ps (k # ks) =
     (case percentEncode k of
        Inl e \<Rightarrow> Inl e
      | Inr ek \<Rightarrow>
          (case percentEncode (getProp ps k) of
             Inl e \<Rightarrow> Inl e
           | Inr ev \<Rightarrow>
               (case encodePairs ps ks of
                  Inl e \<Rightarrow> Inl e
                | Inr r \<Rightarrow> Inr ((ek @ js ''='' @ ev) # r))))"

definition buildBaseString :: "jsstring \<Rightarrow> jsstring \<Rightarrow> params \<Rightarrow> error + jsstring" where
  "buildBaseString method url ps =
     (let sortedKeys = sort (objectKeys ps) in
      case encodePairs ps sortedKeys of
        Inl e \<Rightarrow> Inl e
      | Inr pairs \<Rightarrow>
          (let paramString = join (js ''&'') pairs in
           case percentEncode url of
             Inl e \<Rightarrow> Inl e
           | Inr eurl \<Rightarrow>
               (case percentEncode paramString of
                  Inl e \<Rightarrow> Inl e
                | Inr eps \<Rightarrow> Inr (toUpperCase method @ js ''&'' @ eurl @ js ''&'' @ eps))))"

subsection \<open>\<open>sign\<close>\<close>

text \<open>
  \<open>crypto.createHmac('sha1', key).update(baseString).digest('base64')\<close> is a function of
  the key and the message; it is an argument of the model (\<open>hmacSha1\<close> of the environment
  below), as are the random nonce and the clock.
\<close>

definition sign ::
  "(jsstring \<Rightarrow> jsstring \<Rightarrow> jsstring) \<Rightarrow> jsstring \<Rightarrow> jsstring \<Rightarrow> jsstring \<Rightarrow> error + jsstring"
where
  "sign hmac baseString consumerSecretArg tokenSecret =
     (case percentEncode consumerSecretArg of
        Inl e \<Rightarrow> Inl e
      | Inr ecs \<Rightarrow>
          (case percentEncode tokenSecret of
             Inl e \<Rightarrow> Inl e
           | Inr ets \<Rightarrow> Inr (hmac (ecs @ js ''&'' @ ets) baseString)))"

subsection \<open>Nonce and timestamp\<close>

text \<open>\<open>Number.prototype.toString()\<close> on a non-negative integer.\<close>

function toString10 :: "nat \<Rightarrow> jsstring" where
  "toString10 n = (if n < 10 then [48 + n] else toString10 (n div 10) @ [48 + n mod 10])"
  by pat_completeness auto
termination
  by (relation "measure id") auto

declare toString10.simps [simp del]

record env =
  hmacSha1 :: "jsstring \<Rightarrow> jsstring \<Rightarrow> jsstring"
  randomHex :: jsstring
  dateNow :: int

text \<open>\<open>crypto.randomBytes(16).toString('hex')\<close>: the hexadecimal string the random source gives.\<close>

definition generateNonce :: "env \<Rightarrow> jsstring" where
  "generateNonce e = randomHex e"

text \<open>\<open>Math.floor(Date.now() / 1000).toString()\<close>\<close>

definition generateTimestamp :: "env \<Rightarrow> jsstring" where
  "generateTimestamp e =
     (let t = dateNow e div 1000
      in if t < 0 then js ''-'' @ toString10 (nat (- t)) else toString10 (nat t))"

subsection \<open>Objects\<close>

text \<open>
  Assigning a property keeps the position of a key that exists and appends a new one;
  the spread \<open>{ ...a, ...b }\<close> assigns the properties of \<open>b\<close> to a copy of \<open>a\<close>.
  \<open>a || ''\<close> on an optional string gives the empty string for \<open>undefined\<close>.
\<close>

definition setProp :: "params \<Rightarrow> jsstring \<Rightarrow> jsstring \<Rightarrow> params" where
  "setProp ps k v =
     (if k \<in> set (map fst ps) then map (\<lambda>(k', v'). if k' = k then (k', v) else (k', v')) ps
      else ps @ [(k, v)])"

definition spread :: "params \<Rightarrow> params \<Rightarrow> params" where
  "spread a b = foldl (\<lambda>acc (k, v). setProp acc k v) a b"

definition orEmpty :: "jsstring option \<Rightarrow> jsstring" where
  "orEmpty s = (case s of None \<Rightarrow> [] | Some v \<Rightarrow> v)"

subsection \<open>\<open>buildOAuth1Params\<close>\<close>

record OAuth1Credentials =
  consumerKey :: jsstring
  consumerSecret :: jsstring
  accessToken :: "jsstring option"
  accessTokenSecret :: "jsstring option"

text \<open>
  The object \<open>oauthParams\<close> as \<open>buildOAuth1Params\<close> first builds it, before the signature
  is added: \<open>oauth_token\<close> is set only when \<open>credentials.accessToken\<close> is truthy.
\<close>

definition oauthParamsOf :: "env \<Rightarrow> OAuth1Credentials \<Rightarrow> params" where
  "oauthParamsOf e credentials =
     (let oauthParams =
        [(js ''oauth_consumer_key'', consumerKey credentials),
         (js ''oauth_nonce'', generateNonce e),
         (js ''oauth_signature_method'', js ''HMAC-SHA1''),
         (js ''oauth_timestamp'', generateTimestamp e),
         (js ''oauth_version'', js ''1.0'')]
      in if truthy (accessToken credentials)
         then setProp oauthParams (js ''oauth_token'') (orEmpty (accessToken credentials))
         else oauthParams)"

definition buildOAuth1Params ::
  "env \<Rightarrow> jsstring \<Rightarrow> jsstring \<Rightarrow> OAuth1Credentials \<Rightarrow> params \<Rightarrow> error + params"
where
  "buildOAuth1Params e method url credentials extraParams =
     (let oauthParams = oauthParamsOf e credentials;
          allParams = spread oauthParams extraParams
      in case buildBaseString method url allParams of
           Inl err \<Rightarrow> Inl err
         | Inr baseString \<Rightarrow>
             (case sign (hmacSha1 e) baseString (consumerSecret credentials)
                     (orEmpty (accessTokenSecret credentials)) of
                Inl err \<Rightarrow> Inl err
              | Inr signature \<Rightarrow>
                  Inr (spread (setProp oauthParams (js ''oauth_signature'') signature)
                         extraParams)))"

subsection \<open>Requests and responses\<close>

text \<open>
  A request is its method, its URL without the query string, the parameters from which
  \<open>URLSearchParams\<close> writes the query string or the form body, and the
  \<open>Authorization\<close> header when one is set. A response carries
  \<open>ok\<close>, \<open>status\<close> and the three views of its body that the program reads: \<open>text()\<close>,
  \<open>json()\<close> as a token grant (\<open>None\<close> when it rejects), and \<open>new URLSearchParams(body)\<close>.
\<close>

record request =
  reqMethod :: jsstring
  reqUrl :: jsstring
  reqParams :: params
  reqAuthorization :: "jsstring option"

record grant =
  access_token :: jsstring
  expires_in :: int

record response =
  respOk :: bool
  respStatus :: nat
  respText :: jsstring
  respJson :: "grant option"
  respForm :: params

definition OAUTH1_BASE_URL :: jsstring where
  "OAUTH1_BASE_URL = js ''https://authentication.fatsecret.com/oauth''"

definition REQUEST_TOKEN_URL :: jsstring where
  "REQUEST_TOKEN_URL = OAUTH1_BASE_URL @ js ''/request_token''"

definition AUTHORIZE_URL :: jsstring where
  "AUTHORIZE_URL = OAUTH1_BASE_URL @ js ''/authorize''"

definition ACCESS_TOKEN_URL :: jsstring where
  "ACCESS_TOKEN_URL = OAUTH1_BASE_URL @ js ''/access_token''"

text \<open>\<open>URLSearchParams.prototype.get\<close>: the first value of the name, or \<open>null\<close>.\<close>

definition searchGet :: "params \<Rightarrow> jsstring \<Rightarrow> jsstring option" where
  "searchGet form k = map_of form k"

subsection \<open>\<open>requestToken\<close> and \<open>accessToken\<close>\<close>

record OAuth1RequestTokenResult =
  oauthToken :: jsstring
  oauthTokenSecret :: jsstring
  authorizationUrl :: jsstring

record OAuth1AccessTokenResult =
  accessTokenValue :: jsstring
  accessTokenSecretValue :: jsstring

text \<open>
  Each of the two functions returns its result together with the requests it has sent:
  none when the signer throws before \<open>fetch\<close>, one otherwise.
\<close>

definition requestToken ::
  "env \<Rightarrow> OAuth1Credentials \<Rightarrow> response \<Rightarrow> (error + OAuth1RequestTokenResult) \<times> request list"
where
  "requestToken e credentials resp =
     (case buildOAuth1Params e (js ''GET'') REQUEST_TOKEN_URL credentials
             [(js ''oauth_callback'', js ''oob'')] of
        Inl err \<Rightarrow> (Inl err, [])
      | Inr ps \<Rightarrow>
          (let sent = [\<lparr>reqMethod = js ''GET'', reqUrl = REQUEST_TOKEN_URL, reqParams = ps,
                        reqAuthorization = None\<rparr>]
           in if \<not> respOk resp then (Inl (RequestTokenFailed (respStatus resp) (respText resp)), sent)
              else
                (let tok = searchGet (respForm resp) (js ''oauth_token'');
                     sec = searchGet (respForm resp) (js ''oauth_token_secret'')
                 in if \<not> truthy tok \<or> \<not> truthy sec
                    then (Inl (InvalidRequestTokenResponse (respText resp)), sent)
                    else (Inr \<lparr>oauthToken = orEmpty tok, oauthTokenSecret = orEmpty sec,
                               authorizationUrl =
                                 AUTHORIZE_URL @ js ''?oauth_token='' @ orEmpty tok\<rparr>, sent))))"

definition accessToken' ::
  "env \<Rightarrow> OAuth1Credentials \<Rightarrow> jsstring \<Rightarrow> jsstring \<Rightarrow> jsstring \<Rightarrow> response
     \<Rightarrow> (error + OAuth1AccessTokenResult) \<times> request list"
where
  "accessToken' e credentials oauthTokenArg oauthTokenSecretArg verifier resp =
     (let tokenCredentials =
        credentials\<lparr>accessToken := Some oauthTokenArg,
                    accessTokenSecret := Some oauthTokenSecretArg\<rparr>
      in case buildOAuth1Params e (js ''GET'') ACCESS_TOKEN_URL tokenCredentials
                [(js ''oauth_verifier'', verifier)] of
           Inl err \<Rightarrow> (Inl err, [])
         | Inr ps \<Rightarrow>
             (let sent = [\<lparr>reqMethod = js ''GET'', reqUrl = ACCESS_TOKEN_URL, reqParams = ps,
                           reqAuthorization = None\<rparr>]
              in if \<not> respOk resp
                 then (Inl (AccessTokenFailed (respStatus resp) (respText resp)), sent)
                 else
                   (let tok = searchGet (respForm resp) (js ''oauth_token'');
                        sec = searchGet (respForm resp) (js ''oauth_token_secret'')
                    in if \<not> truthy tok \<or> \<not> truthy sec
                       then (Inl (InvalidAccessTokenResponse (respText resp)), sent)
                       else (Inr \<lparr>accessTokenValue = orEmpty tok,
                                  accessTokenSecretValue = orEmpty sec\<rparr>, sent))))"

section \<open>Reference definitions for the signer\<close>

text \<open>
  The code points of a string, when it is well formed: every code unit is below 65536 and
  every surrogate is half of a pair. \<open>isWellFormed\<close> is \<open>String.prototype.isWellFormed\<close>.
\<close>

fun codePoints :: "jsstring \<Rightarrow> nat list option" where
  "codePoints [] = Some []"
| "codePoints (c # cs) =
     (if 65536 \<le> c \<or> isLow c then None
      else if isHigh c then
        (case cs of
           [] \<Rightarrow> None
         | d # ds \<Rightarrow>
             if isLow d then map_option ((#) (pairCodePoint c d)) (codePoints ds) else None)
      else map_option ((#) c) (codePoints cs))"

definition isWellFormed :: "jsstring \<Rightarrow> bool" where
  "isWellFormed s \<longleftrightarrow> codePoints s \<noteq> None"

text \<open>
  Percent-encoding as the specification words it: the unreserved characters of RFC 3986
  (letters, digits, \<open>- _ . ~\<close>) stay, every other character becomes one \<open>%XX\<close> escape
  for each octet of its UTF-8 form.
\<close>

definition rfc3986_unreserved :: "code_unit \<Rightarrow> bool" where
  "rfc3986_unreserved c \<longleftrightarrow> isAlnum c \<or> c \<in> set [45, 95, 46, 126]"

definition rfc3986_codePoint :: "nat \<Rightarrow> jsstring" where
  "rfc3986_codePoint cp = (if rfc3986_unreserved cp then [cp] else pctCodePoint cp)"

definition rfc3986_encode :: "jsstring \<Rightarrow> jsstring" where
  "rfc3986_encode s =
     (case codePoints s of None \<Rightarrow> [] | Some cps \<Rightarrow> concat (map rfc3986_codePoint cps))"

text \<open>What \<open>encodeURIComponent\<close> writes for one code point.\<close>

definition encCP :: "nat \<Rightarrow> jsstring" where
  "encCP cp = (if uriUnescaped cp then [cp] else pctCodePoint cp)"


definition safeUnit :: "code_unit \<Rightarrow> bool" where
  "safeUnit c \<longleftrightarrow> rfc3986_unreserved c \<or> c = 37"


text \<open>
  The parameter string and the signature base string as the specification words them:
  every key and value is encoded, the entries are sorted by encoded key and then by
  encoded value, and joined as \<open>encKey=encVal\<close> pairs with \<open>&\<close>.
\<close>

definition objectEntries :: "params \<Rightarrow> params" where
  "objectEntries ps = map (\<lambda>k. (k, getProp ps k)) (objectKeys ps)"

definition spec_paramString :: "params \<Rightarrow> jsstring" where
  "spec_paramString es =
     join (js ''&'')
       (map (\<lambda>(ek, ev). ek @ js ''='' @ ev)
         (sort (map (\<lambda>(k, v). (rfc3986_encode k, rfc3986_encode v)) es)))"

definition spec_baseString :: "jsstring \<Rightarrow> jsstring \<Rightarrow> params \<Rightarrow> jsstring" where
  "spec_baseString method url es =
     toUpperCase method @ js ''&'' @ rfc3986_encode url @ js ''&'' @
     rfc3986_encode (spec_paramString es)"

text \<open>Well-formedness of the strings that reach the signer.\<close>

definition wfParams :: "params \<Rightarrow> bool" where
  "wfParams ps = list_all (\<lambda>(k, v). isWellFormed k \<and> isWellFormed v) ps"

definition wfCredentials :: "OAuth1Credentials \<Rightarrow> bool" where
  "wfCredentials c \<longleftrightarrow>
     isWellFormed (consumerKey c) \<and> isWellFormed (consumerSecret c) \<and>
     isWellFormed (orEmpty (accessToken c)) \<and> isWellFormed (orEmpty (accessTokenSecret c))"

definition wfEnv :: "env \<Rightarrow> bool" where
  "wfEnv e \<longleftrightarrow> isWellFormed (randomHex e)"

text \<open>
  The signature of a request whose strings are well formed: the HMAC of the base string
  under the key \<open>encode(consumerSecret)&encode(tokenSecret)\<close>; and the requests that
  \<open>requestToken\<close> and \<open>accessToken\<close> then send.
\<close>

definition signatureOf ::
  "env \<Rightarrow> jsstring \<Rightarrow> jsstring \<Rightarrow> OAuth1Credentials \<Rightarrow> params \<Rightarrow> jsstring"
where
  "signatureOf e method url c extraParams =
     hmacSha1 e
       (rfc3986_encode (consumerSecret c) @ js ''&'' @
        rfc3986_encode (orEmpty (accessTokenSecret c)))
       (toUpperCase method @ js ''&'' @ rfc3986_encode url @ js ''&'' @
        rfc3986_encode (join (js ''&'')
          (map (\<lambda>k. rfc3986_encode k @ js ''='' @
                    rfc3986_encode (getProp (spread (oauthParamsOf e c) extraParams) k))
            (sort (objectKeys (spread (oauthParamsOf e c) extraParams))))))"

definition signedParams ::
  "env \<Rightarrow> jsstring \<Rightarrow> jsstring \<Rightarrow> OAuth1Credentials \<Rightarrow> params \<Rightarrow> params"
where
  "signedParams e method url c extraParams =
     spread (setProp (oauthParamsOf e c) (js ''oauth_signature'')
               (signatureOf e method url c extraParams)) extraParams"

definition requestTokenRequest :: "env \<Rightarrow> OAuth1Credentials \<Rightarrow> request" where
  "requestTokenRequest e c =
     \<lparr>reqMethod = js ''GET'', reqUrl = REQUEST_TOKEN_URL,
      reqParams = signedParams e (js ''GET'') REQUEST_TOKEN_URL c
                    [(js ''oauth_callback'', js ''oob'')],
      reqAuthorization = None\<rparr>"

definition accessTokenRequest ::
  "env \<Rightarrow> OAuth1Credentials \<Rightarrow> jsstring \<Rightarrow> jsstring \<Rightarrow> jsstring \<Rightarrow> request"
where
  "accessTokenRequest e c tok sec verifier =
     \<lparr>reqMethod = js ''GET'', reqUrl = ACCESS_TOKEN_URL,
      reqParams = signedParams e (js ''GET'') ACCESS_TOKEN_URL
                    (c\<lparr>accessToken := Some tok, accessTokenSecret := Some sec\<rparr>)
                    [(js ''oauth_verifier'', verifier)],
      reqAuthorization = None\<rparr>"

section \<open>The server (index.ts, src/unnamed/part_004)\<close>

subsection \<open>Configuration file\<close>

text \<open>
  \<open>interface Config\<close>: every field is optional. The file is \<open>None\<close> when it does not
  exist or does not parse, which \<open>saveConfig\<close> catches and reads as the empty record.
\<close>

record Config =
  cfg_clientId :: "jsstring option"
  cfg_clientSecret :: "jsstring option"
  cfg_consumerSecret :: "jsstring option"
  cfg_accessToken :: "jsstring option"
  cfg_accessTokenSecret :: "jsstring option"

definition emptyConfig :: Config where
  "emptyConfig =
     \<lparr>cfg_clientId = None, cfg_clientSecret = None, cfg_consumerSecret = None,
      cfg_accessToken = None, cfg_accessTokenSecret = None\<rparr>"

text \<open>One field of \<open>{ ...existing, ...updates }\<close>: the update's value when it has the field.\<close>

definition spreadField :: "'a option \<Rightarrow> 'a option \<Rightarrow> 'a option" where
  "spreadField existing updates = (case updates of Some v \<Rightarrow> Some v | None \<Rightarrow> existing)"

definition spreadConfig :: "Config \<Rightarrow> Config \<Rightarrow> Config" where
  "spreadConfig existing updates =
     \<lparr>cfg_clientId = spreadField (cfg_clientId existing) (cfg_clientId updates),
      cfg_clientSecret = spreadField (cfg_clientSecret existing) (cfg_clientSecret updates),
      cfg_consumerSecret = spreadField (cfg_consumerSecret existing) (cfg_consumerSecret updates),
      cfg_accessToken = spreadField (cfg_accessToken existing) (cfg_accessToken updates),
      cfg_accessTokenSecret =
        spreadField (cfg_accessTokenSecret existing) (cfg_accessTokenSecret updates)\<rparr>"

text \<open>
  \<^verbatim>\<open>let existing = {}; try { existing = JSON.parse(readFileSync(...)) } catch { }\<close>
\<close>

definition readExisting :: "Config option \<Rightarrow> Config" where
  "readExisting file = (case file of None \<Rightarrow> emptyConfig | Some c \<Rightarrow> c)"

definition saveConfig :: "Config option \<Rightarrow> Config \<Rightarrow> Config option" where
  "saveConfig file updates =
     (let existing = readExisting file;
          merged = spreadConfig existing updates
      in Some merged)"

subsection \<open>Responses of the remote endpoints\<close>

text \<open>
  A refusal; a success of the request-token or access-token endpoint that carries a
  token and its secret; a success of the OAuth2 token endpoint that carries a grant.
\<close>

definition failedResponse :: response where
  "failedResponse =
     \<lparr>respOk = False, respStatus = 401, respText = js ''denied'', respJson = None, respForm = []\<rparr>"

definition tokenResponse :: "jsstring \<Rightarrow> jsstring \<Rightarrow> response" where
  "tokenResponse tok sec =
     \<lparr>respOk = True, respStatus = 200,
      respText = js ''oauth_token='' @ tok @ js ''&oauth_token_secret='' @ sec,
      respJson = None,
      respForm = [(js ''oauth_token'', tok), (js ''oauth_token_secret'', sec)]\<rparr>"

definition grantResponse :: "grant \<Rightarrow> response" where
  "grantResponse data =
     \<lparr>respOk = True, respStatus = 200, respText = [], respJson = Some data, respForm = []\<rparr>"

subsection \<open>State of \<open>FatSecretMcpServer\<close>\<close>

record PendingOAuth =
  token :: jsstring
  secret :: jsstring

record FatSecretMcpServer =
  clientId :: jsstring
  clientSecret :: jsstring
  oauth2Token :: "jsstring option"
  oauth2TokenExpiry :: int
  oauth1Credentials :: OAuth1Credentials
  pendingOAuth :: "PendingOAuth option"

definition hasApiCredentials :: "FatSecretMcpServer \<Rightarrow> bool" where
  "hasApiCredentials s \<longleftrightarrow>
     clientId s \<noteq> [] \<and> clientSecret s \<noteq> [] \<and> consumerSecret (oauth1Credentials s) \<noteq> []"

definition ensureApiCredentials :: "FatSecretMcpServer \<Rightarrow> error + unit" where
  "ensureApiCredentials s = (if \<not> hasApiCredentials s then Inl NotConfigured else Inr ())"

subsection \<open>\<open>getOAuth2Token\<close>\<close>

text \<open>
  The body of the \<open>POST\<close> to the token endpoint. The function is asynchronous: it runs
  up to \<open>await fetch\<close> (\<open>getOAuth2Token_begin\<close>, which reads the clock), and resumes with
  the response (\<open>getOAuth2Token_resume\<close>, which reads the clock again). Times are in
  milliseconds, \<open>expires_in\<close> in seconds.
\<close>

definition tokenRequest :: "FatSecretMcpServer \<Rightarrow> request" where
  "tokenRequest s =
     \<lparr>reqMethod = js ''POST'', reqUrl = js ''https://oauth.fatsecret.com/connect/token'',
      reqParams =
        [(js ''grant_type'', js ''client_credentials''),
         (js ''client_id'', clientId s),
         (js ''client_secret'', clientSecret s),
         (js ''scope'', js ''basic'')],
      reqAuthorization = None\<rparr>"

datatype tokenStep = Failed error | Cached jsstring | Fetching request

definition getOAuth2Token_begin :: "FatSecretMcpServer \<Rightarrow> int \<Rightarrow> tokenStep" where
  "getOAuth2Token_begin s now =
     (case ensureApiCredentials s of
        Inl e \<Rightarrow> Failed e
      | Inr _ \<Rightarrow>
          if truthy (oauth2Token s) \<and> now < oauth2TokenExpiry s
          then Cached (orEmpty (oauth2Token s))
          else Fetching (tokenRequest s))"

definition getOAuth2Token_resume ::
  "FatSecretMcpServer \<Rightarrow> response \<Rightarrow> int \<Rightarrow> (error + jsstring) \<times> FatSecretMcpServer"
where
  "getOAuth2Token_resume s resp now =
     (if \<not> respOk resp then (Inl (OAuth2Failed (respStatus resp) (respText resp)), s)
      else
        (case respJson resp of
           None \<Rightarrow> (Inl InvalidJson, s)
         | Some data \<Rightarrow>
             (Inr (access_token data),
              s\<lparr>oauth2Token := Some (access_token data),
                oauth2TokenExpiry := now + (expires_in data - 60) * 1000\<rparr>)))"

text \<open>One call run to its end: the result, the state and the requests sent.\<close>

definition getOAuth2Token ::
  "FatSecretMcpServer \<Rightarrow> int \<Rightarrow> response \<Rightarrow> int
     \<Rightarrow> (error + jsstring) \<times> FatSecretMcpServer \<times> request list"
where
  "getOAuth2Token s now resp now' =
     (case getOAuth2Token_begin s now of
        Failed e \<Rightarrow> (Inl e, s, [])
      | Cached t \<Rightarrow> (Inr t, s, [])
      | Fetching r \<Rightarrow>
          (case getOAuth2Token_resume s resp now' of (res, s') \<Rightarrow> (res, s', [r])))"

text \<open>
  Calls in flight together. An event is the start of caller \<open>i\<close>'s call at a time, or the
  arrival of the response to caller \<open>i\<close>'s request at a time; between two awaits the code
  of one caller runs alone. A run keeps the server, the requests sent, the callers that
  wait for a response, and the value each caller got.
\<close>

datatype event = Call nat int | Reply nat response int

record run =
  srv :: FatSecretMcpServer
  sent :: "request list"
  waiting :: "nat set"
  returned :: "(nat \<times> (error + jsstring)) list"

fun step :: "run \<Rightarrow> event \<Rightarrow> run" where
  "step r (Call i now) =
     (case getOAuth2Token_begin (srv r) now of
        Failed e \<Rightarrow> r\<lparr>returned := returned r @ [(i, Inl e)]\<rparr>
      | Cached t \<Rightarrow> r\<lparr>returned := returned r @ [(i, Inr t)]\<rparr>
      | Fetching q \<Rightarrow> r\<lparr>sent := sent r @ [q], waiting := insert i (waiting r)\<rparr>)"
| "step r (Reply i resp now) =
     (if i \<in> waiting r then
        (case getOAuth2Token_resume (srv r) resp now of
           (res, s') \<Rightarrow>
             r\<lparr>srv := s', waiting := waiting r - {i},
               returned := returned r @ [(i, res)]\<rparr>)
      else r)"

definition runEvents :: "FatSecretMcpServer \<Rightarrow> event list \<Rightarrow> run" where
  "runEvents s evs = foldl step \<lparr>srv = s, sent = [], waiting = {}, returned = []\<rparr> evs"

text \<open>
  \<open>N\<close> callers that call together: every call starts (at the times \<open>nows\<close>) before the
  first response arrives; then caller \<open>i\<close> receives its response \<open>fst (replies ! i)\<close> at the
  time \<open>snd (replies ! i)\<close>.
\<close>

definition together :: "int list \<Rightarrow> (response \<times> int) list \<Rightarrow> event list" where
  "together nows replies =
     map (\<lambda>(i, now). Call i now) (enumerate 0 nows) @
     map (\<lambda>(i, (resp, now)). Reply i resp now) (enumerate 0 replies)"

subsection \<open>Clients\<close>

text \<open>
  The public client runs \<open>oauth2Middleware\<close> and then \<open>fetch\<close>: the request goes out with
  the bearer token. The profile client runs \<open>oauth1Middleware\<close> and then \<open>fetch\<close>: the
  request goes out with the signed parameters as its query.
\<close>

definition publicClient_request ::
  "FatSecretMcpServer \<Rightarrow> request \<Rightarrow> int \<Rightarrow> response \<Rightarrow> int \<Rightarrow> response
     \<Rightarrow> (error + response) \<times> FatSecretMcpServer \<times> request list"
where
  "publicClient_request s req now tokenResp now' apiResp =
     (case getOAuth2Token s now tokenResp now' of
        (Inl e, s', out) \<Rightarrow> (Inl e, s', out)
      | (Inr t, s', out) \<Rightarrow>
          (Inr apiResp, s', out @ [req\<lparr>reqAuthorization := Some (js ''Bearer '' @ t)\<rparr>]))"

definition ensureProfileAuth :: "FatSecretMcpServer \<Rightarrow> error + unit" where
  "ensureProfileAuth s =
     (case ensureApiCredentials s of
        Inl e \<Rightarrow> Inl e
      | Inr _ \<Rightarrow>
          if \<not> truthy (accessToken (oauth1Credentials s)) \<or>
             \<not> truthy (accessTokenSecret (oauth1Credentials s))
          then Inl NotAuthenticated
          else Inr ())"

definition oauth1Middleware :: "env \<Rightarrow> FatSecretMcpServer \<Rightarrow> request \<Rightarrow> error + request" where
  "oauth1Middleware e s req =
     (case ensureProfileAuth s of
        Inl err \<Rightarrow> Inl err
      | Inr _ \<Rightarrow>
          (let existingParams = spread [] (reqParams req) in
           case buildOAuth1Params e (reqMethod req) (reqUrl req) (oauth1Credentials s)
                  existingParams of
             Inl err \<Rightarrow> Inl err
           | Inr allParams \<Rightarrow> Inr (req\<lparr>reqParams := allParams\<rparr>)))"

definition profileClient_request ::
  "env \<Rightarrow> FatSecretMcpServer \<Rightarrow> request \<Rightarrow> response \<Rightarrow> (error + response) \<times> request list"
where
  "profileClient_request e s req apiResp =
     (case oauth1Middleware e s req of
        Inl err \<Rightarrow> (Inl err, [])
      | Inr signed \<Rightarrow> (Inr apiResp, [signed]))"

subsection \<open>Auth tools\<close>

text \<open>
  Each tool returns its result (the authorization URL for \<open>start_auth\<close>), the state of the
  server, the configuration file where the tool writes it, and the requests it has sent.
\<close>

definition setup_credentials ::
  "FatSecretMcpServer \<Rightarrow> Config option \<Rightarrow> jsstring \<Rightarrow> jsstring \<Rightarrow> jsstring
     \<Rightarrow> FatSecretMcpServer \<times> Config option"
where
  "setup_credentials s file client_id client_secret consumer_secret =
     (let s' = s\<lparr>clientId := client_id, clientSecret := client_secret,
                 oauth1Credentials :=
                   (oauth1Credentials s)\<lparr>consumerKey := client_id,
                                          consumerSecret := consumer_secret\<rparr>,
                 oauth2Token := None, oauth2TokenExpiry := 0\<rparr>
      in (s', saveConfig file
                (emptyConfig\<lparr>cfg_clientId := Some client_id,
                              cfg_clientSecret := Some client_secret,
                              cfg_consumerSecret := Some consumer_secret\<rparr>)))"

definition start_auth ::
  "env \<Rightarrow> FatSecretMcpServer \<Rightarrow> response
     \<Rightarrow> (error + jsstring) \<times> FatSecretMcpServer \<times> request list"
where
  "start_auth e s resp =
     (case ensureApiCredentials s of
        Inl err \<Rightarrow> (Inl err, s, [])
      | Inr _ \<Rightarrow>
          (case requestToken e (oauth1Credentials s) resp of
             (Inl err, out) \<Rightarrow> (Inl err, s, out)
           | (Inr result, out) \<Rightarrow>
               (Inr (authorizationUrl result),
                s\<lparr>pendingOAuth :=
                    Some \<lparr>token = oauthToken result, secret = oauthTokenSecret result\<rparr>\<rparr>,
                out)))"

definition complete_auth ::
  "env \<Rightarrow> FatSecretMcpServer \<Rightarrow> Config option \<Rightarrow> jsstring \<Rightarrow> response
     \<Rightarrow> (error + unit) \<times> FatSecretMcpServer \<times> Config option \<times> request list"
where
  "complete_auth e s file verifier resp =
     (case pendingOAuth s of
        None \<Rightarrow> (Inl NoPendingOAuth, s, file, [])
      | Some pending \<Rightarrow>
          (case accessToken' e (oauth1Credentials s) (token pending) (secret pending)
                  verifier resp of
             (Inl err, out) \<Rightarrow> (Inl err, s, file, out)
           | (Inr result, out) \<Rightarrow>
               (Inr (),
                s\<lparr>oauth1Credentials :=
                    (oauth1Credentials s)\<lparr>accessToken := Some (accessTokenValue result),
                                           accessTokenSecret :=
                                             Some (accessTokenSecretValue result)\<rparr>,
                  pendingOAuth := None\<rparr>,
                saveConfig file
                  (emptyConfig\<lparr>cfg_accessToken := Some (accessTokenValue result),
                                cfg_accessTokenSecret := Some (accessTokenSecretValue result)\<rparr>),
                out)))"

text \<open>
  For statements about such runs: the cache has no token in use at a time; the
  successful responses that carry given grants; and the cache after they were stored
  one after the other.
\<close>

definition tokenStale :: "FatSecretMcpServer \<Rightarrow> int \<Rightarrow> bool" where
  "tokenStale s now \<longleftrightarrow> \<not> (truthy (oauth2Token s) \<and> now < oauth2TokenExpiry s)"

definition okReplies :: "(grant \<times> int) list \<Rightarrow> (response \<times> int) list" where
  "okReplies grants = map (\<lambda>(data, now). (grantResponse data, now)) grants"

definition cacheAfter :: "FatSecretMcpServer \<Rightarrow> (grant \<times> int) list \<Rightarrow> FatSecretMcpServer" where
  "cacheAfter s grants =
     foldl (\<lambda>s (data, now). s\<lparr>oauth2Token := Some (access_token data),
                              oauth2TokenExpiry := now + (expires_in data - 60) * 1000\<rparr>)
       s grants"

subsection \<open>The token cache as the specification words it\<close>

text \<open>
  The specification's test of the cache: a cached token exists and
  \<open>now < expiresAt - margin\<close>, with a margin of 60 seconds, where \<open>expiresAt\<close> is the
  cached expiry.
\<close>

definition spec_tokenFresh :: "FatSecretMcpServer \<Rightarrow> int \<Rightarrow> bool" where
  "spec_tokenFresh s now \<longleftrightarrow> truthy (oauth2Token s) \<and> now < oauth2TokenExpiry s - 60 * 1000"

section \<open>The session registry (http-server.ts, src/unnamed/part_000)\<close>

text \<open>
  \<open>sessions\<close> is a \<open>Map\<close> from session identifiers to sessions. \<open>handleMcpRequest\<close> reads the
  \<open>mcp-session-id\<close> header: a truthy identifier is routed to its session or answered with
  status 404 and a JSON-RPC error; otherwise a new session is initialised. The
  transport's \<open>onsessioninitialized\<close> and \<open>onclose\<close> register and delete the session.
\<close>

type_synonym 's sessions = "jsstring \<rightharpoonup> 's"

datatype 's routed =
    ToSession 's
  | ErrorResponse nat int jsstring
  | NewSession

definition handleMcpRequest :: "'s sessions \<Rightarrow> jsstring option \<Rightarrow> 's routed" where
  "handleMcpRequest sessions sessionId =
     (if truthy sessionId then
        (case sessions (orEmpty sessionId) of
           Some session \<Rightarrow> ToSession session
         | None \<Rightarrow>
             ErrorResponse 404 (- 32000) (js ''Session not found. Client must reinitialize.''))
      else NewSession)"

definition onsessioninitialized :: "'s sessions \<Rightarrow> jsstring \<Rightarrow> 's \<Rightarrow> 's sessions" where
  "onsessioninitialized sessions newSessionId session = sessions(newSessionId \<mapsto> session)"

definition onclose :: "'s sessions \<Rightarrow> jsstring option \<Rightarrow> 's sessions" where
  "onclose sessions transportSessionId =
     (if truthy transportSessionId then sessions(orEmpty transportSessionId := None)
      else sessions)"

text \<open>The response to an identifier that is not registered.\<close>

definition sessionNotFound :: "'s routed" where
  "sessionNotFound = ErrorResponse 404 (- 32000) (js ''Session not found. Client must reinitialize.'')"

section \<open>Sample values\<close>

text \<open>
  An environment whose HMAC returns its key, so that the signing key is visible in the
  signature; a server that is configured; one that also has a pending request token
  \<open>B\<close>; one that is authorized with the user token \<open>AT\<close>; one with a cached bearer
  token; one that is not configured; a request of the profile client; and grants.
\<close>

definition sampleEnv :: env where
  "sampleEnv = \<lparr>hmacSha1 = (\<lambda>key message. key), randomHex = js ''ab'', dateNow = 1000\<rparr>"

definition sampleConfigured :: FatSecretMcpServer where
  "sampleConfigured =
     \<lparr>clientId = js ''ck'', clientSecret = js ''sec'', oauth2Token = None, oauth2TokenExpiry = 0,
      oauth1Credentials =
        \<lparr>consumerKey = js ''ck'', consumerSecret = js ''cs'',
         accessToken = None, accessTokenSecret = None\<rparr>,
      pendingOAuth = None\<rparr>"

definition samplePending :: FatSecretMcpServer where
  "samplePending = sampleConfigured\<lparr>pendingOAuth := Some \<lparr>token = js ''B'', secret = js ''SB''\<rparr>\<rparr>"

definition sampleAuthorized :: FatSecretMcpServer where
  "sampleAuthorized =
     sampleConfigured\<lparr>oauth1Credentials :=
       \<lparr>consumerKey = js ''ck'', consumerSecret = js ''cs'',
        accessToken = Some (js ''AT''), accessTokenSecret = Some (js ''ATS'')\<rparr>\<rparr>"

definition sampleUnconfigured :: FatSecretMcpServer where
  "sampleUnconfigured =
     \<lparr>clientId = [], clientSecret = [], oauth2Token = None, oauth2TokenExpiry = 0,
      oauth1Credentials =
        \<lparr>consumerKey = [], consumerSecret = [], accessToken = None, accessTokenSecret = None\<rparr>,
      pendingOAuth = None\<rparr>"

definition sampleRequest :: request where
  "sampleRequest =
     \<lparr>reqMethod = js ''GET'', reqUrl = js ''https://platform.fatsecret.com/rest/profile/v1'',
      reqParams = [(js ''format'', js ''json'')], reqAuthorization = None\<rparr>"

definition sampleCached :: FatSecretMcpServer where
  "sampleCached = sampleConfigured\<lparr>oauth2Token := Some (js ''T''), oauth2TokenExpiry := 100000\<rparr>"

definition sampleGrant :: grant where
  "sampleGrant = \<lparr>access_token = js ''N'', expires_in = 3600\<rparr>"

definition sampleAuthorizedCached :: FatSecretMcpServer where
  "sampleAuthorizedCached =
     sampleAuthorized\<lparr>oauth2Token := Some (js ''T''), oauth2TokenExpiry := 100000\<rparr>"

definition sampleGrantA :: grant where
  "sampleGrantA = \<lparr>access_token = js ''A'', expires_in = 3600\<rparr>"

definition sampleGrantB :: grant where
  "sampleGrantB = \<lparr>access_token = js ''B'', expires_in = 3600\<rparr>"

section \<open>Properties of the signer\<close>

lemma unescaped_not_surrogate: "uriUnescaped c \<Longrightarrow> \<not> isLow c \<and> \<not> isHigh c \<and> c < 128"
  by (auto simp: uriUnescaped_def isAlnum_def isLow_def isHigh_def)

lemma pair_not_unescaped: "\<not> uriUnescaped (pairCodePoint c d)"
  by (auto simp: pairCodePoint_def  dest!: unescaped_not_surrogate)

lemma encodeURIComponent_codePoints:
  "codePoints s = Some cps \<Longrightarrow> encodeURIComponent s = Inr (concat (map encCP cps))"
proof (induction s arbitrary: cps rule: encodeURIComponent.induct)
  case 1
  then show ?case by simp
next
  case (2 c cs)
  show ?case
  proof (cases "uriUnescaped c")
    case True
    from 2(4) unescaped_not_surrogate [OF True] obtain r
      where r: "codePoints cs = Some r" and cps: "cps = c # r"
      by (auto split: if_splits)
    from 2(1) [OF True r] True cps show ?thesis
      by (simp add: encCP_def)
  next
    case nu: False
    from 2(4) have nl: "\<not> isLow c" by (auto split: if_splits)
    show ?thesis
    proof (cases "isHigh c")
      case True
      with 2(4) nl obtain d ds where cs: "cs = d # ds" and dl: "isLow d"
        by (cases cs) (auto split: if_splits)
      from 2(4) nl True cs dl obtain r where r: "codePoints ds = Some r"
        and cps: "cps = pairCodePoint c d # r"
        by (auto split: if_splits)
      from 2(2) [OF nu nl True cs dl r] nu nl True cs dl cps pair_not_unescaped [of c d]
      show ?thesis by (simp add: encCP_def)
    next
      case False
      from 2(4) nl False obtain r where r: "codePoints cs = Some r" and cps: "cps = c # r"
        by (auto split: if_splits)
      from 2(3) [OF nu nl False r] nu nl False cps show ?thesis
        by (simp add: encCP_def)
    qed
  qed
qed

lemma codePoints_bound: "codePoints s = Some cps \<Longrightarrow> \<forall>cp \<in> set cps. cp < 1114112"
proof (induction s arbitrary: cps rule: codePoints.induct)
  case 1
  then show ?case by simp
next
  case (2 c cs)
  show ?case
  proof (cases "isHigh c")
    case True
    with 2(3) obtain d ds r where cs: "cs = d # ds" and dl: "isLow d"
      and r: "codePoints ds = Some r" and cps: "cps = pairCodePoint c d # r"
      by (cases cs) (auto split: if_splits)
    from 2(3) have c: "\<not> (65536 \<le> c \<or> isLow c)" by (auto split: if_splits)
    have "pairCodePoint c d < 1114112"
    proof -
      from True have "c - 55296 \<le> 1023" unfolding isHigh_def by linarith
      then have "(c - 55296) * 1024 \<le> 1023 * 1024" by (rule mult_le_mono1)
      moreover from dl have "d - 56320 \<le> 1023" unfolding isLow_def by linarith
      ultimately show ?thesis unfolding pairCodePoint_def by linarith
    qed
    with 2(1) [OF c True cs dl r] cps show ?thesis by simp
  next
    case False
    with 2(3) obtain r where r: "codePoints cs = Some r" and cps: "cps = c # r" and c: "c < 65536"
      by (auto split: if_splits)
    from 2(3) have c': "\<not> (65536 \<le> c \<or> isLow c)" by (auto split: if_splits)
    from 2(2) [OF c' False r] cps c show ?thesis by simp
  qed
qed

lemma hexDigitUpper_safe: "d < 16 \<Longrightarrow> safeUnit (hexDigitUpper d)"
  by (auto simp: safeUnit_def rfc3986_unreserved_def isAlnum_def hexDigitUpper_def)

lemma pctOctet_safe: "b < 256 \<Longrightarrow> list_all safeUnit (pctOctet b)"
proof -
  assume b: "b < 256"
  then have "b div 16 < 16" by simp
  moreover have "b mod 16 < 16" by simp
  ultimately show ?thesis
    by (simp add: pctOctet_def hexDigitUpper_safe) (simp add: safeUnit_def)
qed

lemma utf8_octets: "cp < 1114112 \<Longrightarrow> \<forall>b \<in> set (utf8 cp). b < 256"
  by (auto simp: utf8_def)

lemma pctCodePoint_safe: "cp < 1114112 \<Longrightarrow> list_all safeUnit (pctCodePoint cp)"
  using utf8_octets [of cp] pctOctet_safe
  by (auto simp: pctCodePoint_def list_all_iff)

lemma replaceMark_safe: "safeUnit c \<Longrightarrow> replaceMark c = [c]"
  by (auto simp: safeUnit_def replaceMark_def rfc3986_unreserved_def isAlnum_def)

lemma replaceMark_safe_list: "list_all safeUnit xs \<Longrightarrow> concat (map replaceMark xs) = xs"
  by (induction xs) (simp_all add: replaceMark_safe)

lemma replaceMark_marks:
  "replaceMark 33 = pctCodePoint 33" "replaceMark 39 = pctCodePoint 39"
  "replaceMark 40 = pctCodePoint 40" "replaceMark 41 = pctCodePoint 41"
  "replaceMark 42 = pctCodePoint 42"
  by code_simp+

lemma replaceMark_encCP: "cp < 1114112 \<Longrightarrow> concat (map replaceMark (encCP cp)) = rfc3986_codePoint cp"
proof (cases "uriUnescaped cp")
  case True
  show ?thesis
  proof (cases "cp \<in> set [33, 39, 40, 41, 42]")
    case m: True
    then have "replaceMark cp = pctCodePoint cp"
      using replaceMark_marks by auto
    moreover from m have "\<not> rfc3986_unreserved cp"
      by (auto simp: rfc3986_unreserved_def isAlnum_def)
    ultimately show ?thesis using True by (simp add: encCP_def rfc3986_codePoint_def)
  next
    case False
    with True have "rfc3986_unreserved cp"
      by (auto simp: uriUnescaped_def rfc3986_unreserved_def)
    then show ?thesis using True
      by (simp add: encCP_def rfc3986_codePoint_def replaceMark_safe safeUnit_def)
  qed
next
  case False
  assume "cp < 1114112"
  moreover from False have "\<not> rfc3986_unreserved cp"
    by (auto simp: uriUnescaped_def rfc3986_unreserved_def)
  ultimately show ?thesis using False
    by (simp add: encCP_def rfc3986_codePoint_def replaceMark_safe_list pctCodePoint_safe)
qed

lemma percentEncode_wellFormed:
  assumes "isWellFormed s"
  shows "percentEncode s = Inr (rfc3986_encode s)"
proof -
  from assms obtain cps where cps: "codePoints s = Some cps"
    by (auto simp: isWellFormed_def)
  have "\<forall>cp \<in> set cps. cp < 1114112 \<Longrightarrow>
    concat (map replaceMark (concat (map encCP cps))) = concat (map rfc3986_codePoint cps)"
    by (induction cps) (simp_all add: replaceMark_encCP)
  with codePoints_bound [OF cps] encodeURIComponent_codePoints [OF cps] cps show ?thesis
    by (simp add: percentEncode_def rfc3986_encode_def)
qed

lemma safeUnit_ascii: "safeUnit c \<Longrightarrow> c < 128"
  by (auto simp: safeUnit_def rfc3986_unreserved_def isAlnum_def)

lemma ascii_codePoints: "list_all (\<lambda>c. c < 128) s \<Longrightarrow> codePoints s = Some s"
  by (induction s) (auto simp: isLow_def isHigh_def)

lemma ascii_wellFormed: "list_all (\<lambda>c. c < 128) s \<Longrightarrow> isWellFormed s"
  by (simp add: isWellFormed_def ascii_codePoints)

lemma rfc3986_codePoint_safe: "cp < 1114112 \<Longrightarrow> list_all safeUnit (rfc3986_codePoint cp)"
  by (simp add: rfc3986_codePoint_def pctCodePoint_safe safeUnit_def)

lemma rfc3986_encode_safe: "list_all safeUnit (rfc3986_encode s)"
proof (cases "codePoints s")
  case None
  then show ?thesis by (simp add: rfc3986_encode_def)
next
  case (Some cps)
  have "\<forall>cp \<in> set cps. cp < 1114112 \<Longrightarrow> list_all safeUnit (concat (map rfc3986_codePoint cps))"
    by (induction cps) (simp_all add: rfc3986_codePoint_safe)
  with codePoints_bound [OF Some] Some show ?thesis
    by (simp add: rfc3986_encode_def)
qed

lemma rfc3986_encode_ascii: "list_all (\<lambda>c. c < 128) (rfc3986_encode s)"
  using rfc3986_encode_safe [of s] safeUnit_ascii by (auto simp: list_all_iff)

lemma rfc3986_encode_unreserved:
  assumes "list_all rfc3986_unreserved s"
  shows "rfc3986_encode s = s"
proof -
  from assms have "list_all (\<lambda>c. c < 128) s"
    by (auto simp: list_all_iff safeUnit_def intro: safeUnit_ascii)
  then have "codePoints s = Some s" by (rule ascii_codePoints)
  moreover from assms have "concat (map rfc3986_codePoint s) = s"
    by (induction s) (simp_all add: rfc3986_codePoint_def)
  ultimately show ?thesis by (simp add: rfc3986_encode_def)
qed

lemma join_ascii:
  "\<forall>x \<in> set xs. list_all (\<lambda>c. c < 128) x \<Longrightarrow> list_all (\<lambda>c. c < 128) (join (js ''&'') xs)"
  by (induction "js ''&''" xs rule: join.induct) (simp_all add: js_def)

lemma encodePairs_wellFormed:
  "\<forall>k \<in> set ks. isWellFormed k \<and> isWellFormed (getProp ps k) \<Longrightarrow>
   encodePairs ps ks =
     Inr (map (\<lambda>k. rfc3986_encode k @ js ''='' @ rfc3986_encode (getProp ps k)) ks)"
  by (induction ks) (simp_all add: percentEncode_wellFormed)

lemma getProp_mem: "k \<in> set (objectKeys ps) \<Longrightarrow> (k, getProp ps k) \<in> set ps"
proof -
  assume "k \<in> set (objectKeys ps)"
  then have "k \<in> fst ` set ps" by (simp add: objectKeys_def)
  then obtain v where "map_of ps k = Some v"
    by (metis domD dom_map_of_conv_image_fst)
  then show ?thesis by (simp add: getProp_def map_of_SomeD)
qed

lemma buildBaseString_wellFormed:
  assumes url: "isWellFormed url"
    and ps: "\<forall>(k, v) \<in> set ps. isWellFormed k \<and> isWellFormed v"
  shows "buildBaseString method url ps =
     Inr (toUpperCase method @ js ''&'' @ rfc3986_encode url @ js ''&'' @
          rfc3986_encode (join (js ''&'')
            (map (\<lambda>k. rfc3986_encode k @ js ''='' @ rfc3986_encode (getProp ps k))
              (sort (objectKeys ps)))))"
proof -
  let ?pairs = "map (\<lambda>k. rfc3986_encode k @ js ''='' @ rfc3986_encode (getProp ps k))
              (sort (objectKeys ps))"
  have "\<forall>k \<in> set (sort (objectKeys ps)). isWellFormed k \<and> isWellFormed (getProp ps k)"
    using ps getProp_mem by fastforce
  then have pairs: "encodePairs ps (sort (objectKeys ps)) = Inr ?pairs"
    by (rule encodePairs_wellFormed)
  have "\<forall>x \<in> set ?pairs. list_all (\<lambda>c. c < 128) x"
    by (auto simp: rfc3986_encode_ascii js_def)
  then have "isWellFormed (join (js ''&'') ?pairs)"
    by (intro ascii_wellFormed join_ascii)
  then have "percentEncode (join (js ''&'') ?pairs) = Inr (rfc3986_encode (join (js ''&'') ?pairs))"
    by (rule percentEncode_wellFormed)
  with pairs percentEncode_wellFormed [OF url] show ?thesis
    by (simp add: buildBaseString_def)
qed

lemma insort_map_embed:
  fixes g :: "'a::linorder \<Rightarrow> 'b::linorder"
  assumes "\<forall>y \<in> set ys. (g x \<le> g y) = (x \<le> y)"
  shows "insort (g x) (map g ys) = map g (insort x ys)"
  using assms by (induction ys) simp_all

lemma sort_map_embed:
  fixes g :: "'a::linorder \<Rightarrow> 'b::linorder"
  assumes "\<forall>x \<in> set xs. \<forall>y \<in> set xs. (g x \<le> g y) = (x \<le> y)"
  shows "sort (map g xs) = map g (sort xs)"
  using assms
proof (induction xs)
  case Nil
  show ?case by simp
next
  case (Cons x xs)
  then have "sort (map g xs) = map g (sort xs)" by simp
  moreover from Cons.prems have "\<forall>y \<in> set (sort xs). (g x \<le> g y) = (x \<le> y)" by simp
  ultimately show ?case by (simp add: insort_map_embed)
qed

lemma pair_embed:
  fixes e f :: "jsstring \<Rightarrow> jsstring"
  assumes "(e x \<le> e y) = (x \<le> y)" and "(e y \<le> e x) = (y \<le> x)"
  shows "((e x, f x) \<le> (e y, f y)) = (x \<le> y)"
proof (cases "x = y")
  case True
  then show ?thesis by simp
next
  case False
  with assms have "e x \<noteq> e y" by (metis order_refl antisym)
  with assms show ?thesis by (auto simp: less_eq_prod_def)
qed

lemma code_order_is_spec_order:
  assumes "\<forall>k \<in> set (objectKeys ps). \<forall>k' \<in> set (objectKeys ps).
      (rfc3986_encode k \<le> rfc3986_encode k') = (k \<le> k')"
  shows "join (js ''&'')
            (map (\<lambda>k. rfc3986_encode k @ js ''='' @ rfc3986_encode (getProp ps k))
              (sort (objectKeys ps))) = spec_paramString (objectEntries ps)"
proof -
  let ?f = "\<lambda>k. rfc3986_encode (getProp ps k)"
  let ?g = "\<lambda>k. (rfc3986_encode k, ?f k)"
  let ?h = "\<lambda>(ek, ev). ek @ js ''='' @ ev"
  have "map (\<lambda>(k, v). (rfc3986_encode k, rfc3986_encode v)) (objectEntries ps)
      = map ?g (objectKeys ps)"
    by (simp add: objectEntries_def)
  then have "spec_paramString (objectEntries ps)
      = join (js ''&'') (map ?h (sort (map ?g (objectKeys ps))))"
    by (simp only: spec_paramString_def)
  also have "sort (map ?g (objectKeys ps)) = map ?g (sort (objectKeys ps))"
    using assms by (intro sort_map_embed ballI pair_embed) simp_all
  also have "map ?h (map ?g (sort (objectKeys ps)))
      = map (\<lambda>k. rfc3986_encode k @ js ''='' @ ?f k) (sort (objectKeys ps))"
    by simp
  finally show ?thesis by simp
qed

lemma percentEncode_unreserved: "list_all rfc3986_unreserved s \<Longrightarrow> percentEncode s = Inr s"
proof -
  assume u: "list_all rfc3986_unreserved s"
  then have "list_all (\<lambda>c. c < 128) s"
    by (auto simp: list_all_iff safeUnit_def intro: safeUnit_ascii)
  then have "isWellFormed s" by (rule ascii_wellFormed)
  then show ?thesis using u by (simp add: percentEncode_wellFormed rfc3986_encode_unreserved)
qed

lemma rfc3986_encode_no_amp: "38 \<notin> set (rfc3986_encode s)"
  using rfc3986_encode_safe [of s]
  by (auto simp: list_all_iff safeUnit_def rfc3986_unreserved_def isAlnum_def)

text \<open>Unfolding sets for evaluating the encoders on literals.\<close>

lemmas pe_defs =
  percentEncode_def uriUnescaped_def isAlnum_def isLow_def isHigh_def replaceMark_def
  pctCodePoint_def utf8_def pctOctet_def hexDigitUpper_def hexDigitLower_def toUpperCase_def
  upperUnit_def toString16.simps

lemmas enc_defs =
  rfc3986_encode_def isLow_def isHigh_def rfc3986_codePoint_def rfc3986_unreserved_def
  isAlnum_def pctCodePoint_def utf8_def pctOctet_def hexDigitUpper_def

lemma percentEncode_space: "percentEncode (js '' '') = Inr (js ''%20'')"
  by (simp add: js_def pe_defs)

lemma percentEncode_marks: "percentEncode (js ''!*'()'') = Inr (js ''%21%2A%27%28%29'')"
  by (simp add: js_def pe_defs)


section \<open>Properties of the signed parameters\<close>

lemma map_of_replace:
  "map_of (map (\<lambda>(a, b). if a = k then (a, v) else (a, b)) ps) k'
     = (if k' = k then map_option (\<lambda>_. v) (map_of ps k) else map_of ps k')"
  by (induction ps) auto

lemma map_of_setProp:
  "map_of (setProp ps k v) k' = (if k' = k then Some v else map_of ps k')"
proof (cases "k \<in> set (map fst ps)")
  case True
  then obtain w where "map_of ps k = Some w"
    by (metis domD dom_map_of_conv_image_fst set_map)
  with True show ?thesis by (simp add: setProp_def map_of_replace)
next
  case False
  then have "map_of ps k = None" by (simp add: map_of_eq_None_iff)
  with False show ?thesis by (auto simp: setProp_def map_add_def split: option.splits)
qed

lemma map_of_spread:
  "map_of (spread a b) k = (case map_of (rev b) k of Some v \<Rightarrow> Some v | None \<Rightarrow> map_of a k)"
proof (induction b arbitrary: a)
  case Nil
  show ?case by (simp add: spread_def)
next
  case (Cons x b)
  obtain k0 v0 where x: "x = (k0, v0)" by (cases x)
  have "spread a (x # b) = spread (setProp a k0 v0) b"
    by (simp add: spread_def x)
  with Cons [of "setProp a k0 v0"] show ?case
    by (auto simp: x map_of_setProp map_add_def split: option.splits)
qed

lemma wfParams_setProp:
  "wfParams ps \<Longrightarrow> isWellFormed k \<Longrightarrow> isWellFormed v \<Longrightarrow> wfParams (setProp ps k v)"
  by (auto simp: wfParams_def setProp_def list_all_iff split: if_splits)

lemma wfParams_spread: "wfParams a \<Longrightarrow> wfParams b \<Longrightarrow> wfParams (spread a b)"
proof (induction b arbitrary: a)
  case Nil
  then show ?case by (simp add: spread_def)
next
  case (Cons x b)
  obtain k0 v0 where x: "x = (k0, v0)" by (cases x)
  have "spread a (x # b) = spread (setProp a k0 v0) b"
    by (simp add: spread_def x)
  moreover from Cons.prems have "wfParams (setProp a k0 v0)" and "wfParams b"
    by (simp_all add: x wfParams_def wfParams_setProp [unfolded wfParams_def])
  ultimately show ?case using Cons.IH by simp
qed

lemma toString10_ascii: "list_all (\<lambda>c. c < 128) (toString10 n)"
proof (induction n rule: toString10.induct)
  case (1 n)
  show ?case
  proof (cases "n < 10")
    case True
    then show ?thesis by (simp add: toString10.simps [of n])
  next
    case False
    have "n mod 10 < 10" by simp
    then have "48 + n mod 10 < 128" by linarith
    with False 1 show ?thesis by (simp add: toString10.simps [of n])
  qed
qed

lemma generateTimestamp_wellFormed: "isWellFormed (generateTimestamp e)"
  by (rule ascii_wellFormed) (simp add: generateTimestamp_def Let_def toString10_ascii js_def)

lemma js_ascii_wellFormed: "list_all (\<lambda>c. c < 128) (js s) \<Longrightarrow> isWellFormed (js s)"
  by (rule ascii_wellFormed)

lemma isWellFormed_oauth_names:
  "isWellFormed (js ''oauth_consumer_key'')" "isWellFormed (js ''oauth_nonce'')"
  "isWellFormed (js ''oauth_signature_method'')" "isWellFormed (js ''HMAC-SHA1'')"
  "isWellFormed (js ''oauth_timestamp'')" "isWellFormed (js ''oauth_version'')"
  "isWellFormed (js ''1.0'')" "isWellFormed (js ''oauth_token'')"
  "isWellFormed (js ''oauth_callback'')" "isWellFormed (js ''oob'')"
  "isWellFormed (js ''oauth_verifier'')"
  by (simp_all add: isWellFormed_def js_def isLow_def isHigh_def)

lemma wfParams_oauthParamsOf:
  assumes "wfEnv e" and "wfCredentials c"
  shows "wfParams (oauthParamsOf e c)"
proof -
  let ?base = "[(js ''oauth_consumer_key'', consumerKey c),
         (js ''oauth_nonce'', generateNonce e),
         (js ''oauth_signature_method'', js ''HMAC-SHA1''),
         (js ''oauth_timestamp'', generateTimestamp e),
         (js ''oauth_version'', js ''1.0'')]"
  from assms have base: "wfParams ?base"
    by (simp add: wfParams_def wfEnv_def wfCredentials_def generateNonce_def
        generateTimestamp_wellFormed isWellFormed_oauth_names)
  from assms have "isWellFormed (orEmpty (accessToken c))"
    by (simp add: wfCredentials_def)
  with base have tok: "wfParams (setProp ?base (js ''oauth_token'') (orEmpty (accessToken c)))"
    by (intro wfParams_setProp) (simp_all add: isWellFormed_oauth_names)
  show ?thesis
  proof (cases "truthy (accessToken c)")
    case True
    with tok show ?thesis by (simp only: oauthParamsOf_def Let_def if_True)
  next
    case False
    with base show ?thesis by (simp only: oauthParamsOf_def Let_def if_False)
  qed
qed

lemma sign_wellFormed:
  "isWellFormed cs \<Longrightarrow> isWellFormed ts \<Longrightarrow>
   sign hmac base cs ts = Inr (hmac (rfc3986_encode cs @ js ''&'' @ rfc3986_encode ts) base)"
  by (simp add: sign_def percentEncode_wellFormed)

lemma buildOAuth1Params_wellFormed:
  assumes "wfEnv e" and "wfCredentials c" and "isWellFormed url" and "wfParams extraParams"
  shows "buildOAuth1Params e method url c extraParams =
     Inr (spread (setProp (oauthParamsOf e c) (js ''oauth_signature'')
                    (signatureOf e method url c extraParams)) extraParams)"
proof -
  let ?all = "spread (oauthParamsOf e c) extraParams"
  from assms have "wfParams ?all"
    by (intro wfParams_spread wfParams_oauthParamsOf)
  then have "\<forall>(k, v) \<in> set ?all. isWellFormed k \<and> isWellFormed v"
    by (simp add: wfParams_def list_all_iff)
  with assms(3) have base: "buildBaseString method url ?all =
     Inr (toUpperCase method @ js ''&'' @ rfc3986_encode url @ js ''&'' @
          rfc3986_encode (join (js ''&'')
            (map (\<lambda>k. rfc3986_encode k @ js ''='' @ rfc3986_encode (getProp ?all k))
              (sort (objectKeys ?all)))))"
    by (rule buildBaseString_wellFormed)
  from assms(2) have "isWellFormed (consumerSecret c)"
    and "isWellFormed (orEmpty (accessTokenSecret c))"
    by (simp_all add: wfCredentials_def)
  then show ?thesis
    by (simp add: buildOAuth1Params_def Let_def base sign_wellFormed signatureOf_def)
qed

lemma buildOAuth1Params_Inr:
  "buildOAuth1Params e method url c extraParams = Inr ps \<Longrightarrow>
   \<exists>signature. ps = spread (setProp (oauthParamsOf e c) (js ''oauth_signature'') signature)
                       extraParams"
  by (auto simp: buildOAuth1Params_def Let_def split: sum.splits)

lemma oauth_names_distinct:
  "js ''oauth_token'' \<noteq> js ''oauth_consumer_key''" "js ''oauth_token'' \<noteq> js ''oauth_nonce''"
  "js ''oauth_token'' \<noteq> js ''oauth_signature_method''"
  "js ''oauth_token'' \<noteq> js ''oauth_timestamp''" "js ''oauth_token'' \<noteq> js ''oauth_version''"
  "js ''oauth_token'' \<noteq> js ''oauth_signature''" "js ''oauth_token'' \<noteq> js ''oauth_callback''"
  "js ''oauth_token'' \<noteq> js ''oauth_verifier''"
  "js ''oauth_callback'' \<noteq> js ''oauth_signature''"
  "js ''oauth_verifier'' \<noteq> js ''oauth_signature''"
  by (simp_all add: js_def)

lemma map_of_oauthParamsOf_token:
  "map_of (oauthParamsOf e c) (js ''oauth_token'') =
     (if truthy (accessToken c) then Some (orEmpty (accessToken c)) else None)"
  by (simp add: oauthParamsOf_def Let_def map_of_setProp oauth_names_distinct)

lemma signed_oauth_token:
  assumes "map_of extraParams (js ''oauth_token'') = None"
  shows "map_of (spread (setProp (oauthParamsOf e c) (js ''oauth_signature'') signature)
            extraParams) (js ''oauth_token'') =
     (if truthy (accessToken c) then Some (orEmpty (accessToken c)) else None)"
proof -
  from assms have "map_of (rev extraParams) (js ''oauth_token'') = None"
    by (simp add: map_of_eq_None_iff)
  then show ?thesis
    by (simp add: map_of_spread map_of_setProp map_of_oauthParamsOf_token oauth_names_distinct)
qed

lemma signed_oauth_signature:
  assumes "map_of extraParams (js ''oauth_signature'') = None"
  shows "map_of (spread (setProp (oauthParamsOf e c) (js ''oauth_signature'') signature)
            extraParams) (js ''oauth_signature'') = Some signature"
proof -
  from assms have "map_of (rev extraParams) (js ''oauth_signature'') = None"
    by (simp add: map_of_eq_None_iff)
  then show ?thesis
    by (simp add: map_of_spread map_of_setProp)
qed

lemma buildOAuth1Params_signed:
  assumes "wfEnv e" and "wfCredentials c" and "isWellFormed url" and "wfParams extraParams"
  shows "buildOAuth1Params e method url c extraParams =
     Inr (signedParams e method url c extraParams)"
  using assms by (simp add: buildOAuth1Params_wellFormed signedParams_def)

lemma isWellFormed_urls:
  "isWellFormed REQUEST_TOKEN_URL" "isWellFormed ACCESS_TOKEN_URL"
  by (simp_all add: REQUEST_TOKEN_URL_def ACCESS_TOKEN_URL_def OAUTH1_BASE_URL_def
      isWellFormed_def js_def isLow_def isHigh_def)

lemma requestToken_sends:
  assumes "wfEnv e" and "wfCredentials c"
  shows "snd (requestToken e c resp) = [requestTokenRequest e c]"
proof -
  have "wfParams [(js ''oauth_callback'', js ''oob'')]"
    by (simp add: wfParams_def isWellFormed_oauth_names)
  with assms have "buildOAuth1Params e (js ''GET'') REQUEST_TOKEN_URL c
      [(js ''oauth_callback'', js ''oob'')]
    = Inr (signedParams e (js ''GET'') REQUEST_TOKEN_URL c [(js ''oauth_callback'', js ''oob'')])"
    by (intro buildOAuth1Params_signed isWellFormed_urls)
  then show ?thesis
    by (simp add: requestToken_def Let_def requestTokenRequest_def)
qed

lemma requestToken_ok:
  assumes "wfEnv e" and "wfCredentials c" and "respOk resp"
    and "searchGet (respForm resp) (js ''oauth_token'') = Some tok" and "tok \<noteq> []"
    and "searchGet (respForm resp) (js ''oauth_token_secret'') = Some sec" and "sec \<noteq> []"
  shows "requestToken e c resp =
     (Inr \<lparr>oauthToken = tok, oauthTokenSecret = sec,
           authorizationUrl = AUTHORIZE_URL @ js ''?oauth_token='' @ tok\<rparr>,
      [requestTokenRequest e c])"
proof -
  have "wfParams [(js ''oauth_callback'', js ''oob'')]"
    by (simp add: wfParams_def isWellFormed_oauth_names)
  with assms have "buildOAuth1Params e (js ''GET'') REQUEST_TOKEN_URL c
      [(js ''oauth_callback'', js ''oob'')]
    = Inr (signedParams e (js ''GET'') REQUEST_TOKEN_URL c [(js ''oauth_callback'', js ''oob'')])"
    by (intro buildOAuth1Params_signed isWellFormed_urls)
  with assms show ?thesis
    by (simp add: requestToken_def Let_def requestTokenRequest_def truthy_def orEmpty_def)
qed

lemma requestToken_Inr:
  assumes "requestToken e c resp = (Inr result, out)"
  shows "respOk resp \<and>
     searchGet (respForm resp) (js ''oauth_token'') = Some (oauthToken result) \<and>
     oauthToken result \<noteq> [] \<and>
     searchGet (respForm resp) (js ''oauth_token_secret'') = Some (oauthTokenSecret result) \<and>
     oauthTokenSecret result \<noteq> []"
  using assms
  by (auto simp: requestToken_def Let_def truthy_def orEmpty_def
      split: sum.splits if_splits option.splits)

lemma accessToken'_sends:
  assumes "wfEnv e" and "wfCredentials c" and "isWellFormed tok" and "isWellFormed sec"
    and "isWellFormed verifier"
  shows "snd (accessToken' e c tok sec verifier resp) = [accessTokenRequest e c tok sec verifier]"
proof -
  let ?c = "c\<lparr>accessToken := Some tok, accessTokenSecret := Some sec\<rparr>"
  from assms have "wfCredentials ?c"
    by (simp add: wfCredentials_def orEmpty_def)
  moreover from assms have "wfParams [(js ''oauth_verifier'', verifier)]"
    by (simp add: wfParams_def isWellFormed_oauth_names)
  ultimately have "buildOAuth1Params e (js ''GET'') ACCESS_TOKEN_URL ?c
      [(js ''oauth_verifier'', verifier)]
    = Inr (signedParams e (js ''GET'') ACCESS_TOKEN_URL ?c [(js ''oauth_verifier'', verifier)])"
    using assms(1) by (intro buildOAuth1Params_signed isWellFormed_urls)
  then show ?thesis
    by (simp add: accessToken'_def Let_def accessTokenRequest_def)
qed

lemma accessToken'_requests:
  assumes "accessToken' e c tok sec verifier resp = (res, out)" and "tok \<noteq> []"
  shows "\<forall>q \<in> set out. reqUrl q = ACCESS_TOKEN_URL \<and>
           map_of (reqParams q) (js ''oauth_token'') = Some tok"
proof (cases "buildOAuth1Params e (js ''GET'') ACCESS_TOKEN_URL
    (c\<lparr>accessToken := Some tok, accessTokenSecret := Some sec\<rparr>)
    [(js ''oauth_verifier'', verifier)]")
  case (Inl err)
  with assms show ?thesis by (simp add: accessToken'_def Let_def)
next
  case (Inr ps)
  from buildOAuth1Params_Inr [OF Inr] obtain signature where
    ps: "ps = spread (setProp (oauthParamsOf e (c\<lparr>accessToken := Some tok,
        accessTokenSecret := Some sec\<rparr>)) (js ''oauth_signature'') signature)
        [(js ''oauth_verifier'', verifier)]"
    by blast
  have "map_of [(js ''oauth_verifier'', verifier)] (js ''oauth_token'') = None"
    by (simp add: oauth_names_distinct)
  from signed_oauth_token [OF this] assms(2) ps
  have "map_of ps (js ''oauth_token'') = Some tok"
    by (simp add: truthy_def orEmpty_def)
  moreover from assms(1) Inr have "out = [\<lparr>reqMethod = js ''GET'', reqUrl = ACCESS_TOKEN_URL,
      reqParams = ps, reqAuthorization = None\<rparr>]"
    by (auto simp: accessToken'_def Let_def split: if_splits)
  ultimately show ?thesis by simp
qed

section \<open>Properties of the authorization flow\<close>

lemma accessToken'_ok:
  assumes "wfEnv e" and "wfCredentials c" and "isWellFormed tok" and "isWellFormed sec"
    and "isWellFormed verifier" and "respOk resp"
    and "searchGet (respForm resp) (js ''oauth_token'') = Some t" and "t \<noteq> []"
    and "searchGet (respForm resp) (js ''oauth_token_secret'') = Some ts" and "ts \<noteq> []"
  shows "accessToken' e c tok sec verifier resp =
     (Inr \<lparr>accessTokenValue = t, accessTokenSecretValue = ts\<rparr>,
      [accessTokenRequest e c tok sec verifier])"
proof -
  from assms have "snd (accessToken' e c tok sec verifier resp)
      = [accessTokenRequest e c tok sec verifier]"
    by (simp add: accessToken'_sends)
  with assms show ?thesis
    by (auto simp: accessToken'_def Let_def truthy_def orEmpty_def split: sum.splits)
qed

lemma sample_wellFormed:
  "wfEnv sampleEnv" "wfCredentials (oauth1Credentials sampleConfigured)"
  "wfCredentials (oauth1Credentials samplePending)"
  "wfCredentials (oauth1Credentials sampleAuthorized)"
  "isWellFormed (js ''A'')" "isWellFormed (js ''SA'')"
  "isWellFormed (js ''B'')" "isWellFormed (js ''SB'')" "isWellFormed (js ''v'')"
  by (simp_all add: wfEnv_def wfCredentials_def sampleEnv_def sampleConfigured_def
      samplePending_def sampleAuthorized_def orEmpty_def isWellFormed_def js_def
      isLow_def isHigh_def)

lemma sample_nonempty:
  "js ''A'' \<noteq> []" "js ''SA'' \<noteq> []" "js ''B'' \<noteq> []" "js ''SB'' \<noteq> []"
  "js ''AT'' \<noteq> []" "js ''ATS'' \<noteq> []" "js ''A'' \<noteq> js ''B''"
  by (simp_all add: js_def)

lemma tokenResponse_get:
  "respOk (tokenResponse tok sec)"
  "searchGet (respForm (tokenResponse tok sec)) (js ''oauth_token'') = Some tok"
  "searchGet (respForm (tokenResponse tok sec)) (js ''oauth_token_secret'') = Some sec"
  by (simp_all add: tokenResponse_def searchGet_def js_def)

lemma start_auth_Inr:
  assumes "start_auth e s resp = (Inr u, s', out)"
  shows "\<exists>tok sec.
     searchGet (respForm resp) (js ''oauth_token'') = Some tok \<and> tok \<noteq> [] \<and>
     searchGet (respForm resp) (js ''oauth_token_secret'') = Some sec \<and> sec \<noteq> [] \<and>
     s' = s\<lparr>pendingOAuth := Some \<lparr>token = tok, secret = sec\<rparr>\<rparr> \<and>
     u = AUTHORIZE_URL @ js ''?oauth_token='' @ tok"
proof -
  from assms obtain result where
    r: "requestToken e (oauth1Credentials s) resp = (Inr result, out)"
    and s': "s' = s\<lparr>pendingOAuth :=
        Some \<lparr>token = oauthToken result, secret = oauthTokenSecret result\<rparr>\<rparr>"
    and u: "u = authorizationUrl result"
    by (auto simp: start_auth_def split: sum.splits prod.splits)
  from r have "authorizationUrl result = AUTHORIZE_URL @ js ''?oauth_token='' @ oauthToken result"
    by (auto simp: requestToken_def Let_def split: sum.splits if_splits)
  with requestToken_Inr [OF r] s' u show ?thesis by blast
qed

lemma start_auth_ok:
  assumes "hasApiCredentials s" and "wfEnv e" and "wfCredentials (oauth1Credentials s)"
    and "respOk resp"
    and "searchGet (respForm resp) (js ''oauth_token'') = Some tok" and "tok \<noteq> []"
    and "searchGet (respForm resp) (js ''oauth_token_secret'') = Some sec" and "sec \<noteq> []"
  shows "start_auth e s resp =
     (Inr (AUTHORIZE_URL @ js ''?oauth_token='' @ tok),
      s\<lparr>pendingOAuth := Some \<lparr>token = tok, secret = sec\<rparr>\<rparr>,
      [requestTokenRequest e (oauth1Credentials s)])"
  using assms requestToken_ok [of e "oauth1Credentials s" resp tok sec]
  by (simp add: start_auth_def ensureApiCredentials_def)

lemma sample_hasApiCredentials:
  "hasApiCredentials sampleConfigured" "hasApiCredentials samplePending"
  "hasApiCredentials sampleAuthorized" "\<not> hasApiCredentials sampleUnconfigured"
  by (simp_all add: hasApiCredentials_def sampleConfigured_def samplePending_def
      sampleAuthorized_def sampleUnconfigured_def js_def)

lemma requestTokenRequest_params:
  "reqUrl (requestTokenRequest e c) = REQUEST_TOKEN_URL"
  "map_of (reqParams (requestTokenRequest e c)) (js ''oauth_callback'') = Some (js ''oob'')"
  "map_of (reqParams (requestTokenRequest e c)) (js ''oauth_token'') =
     (if truthy (accessToken c) then Some (orEmpty (accessToken c)) else None)"
  "map_of (reqParams (requestTokenRequest e c)) (js ''oauth_signature'') =
     Some (signatureOf e (js ''GET'') REQUEST_TOKEN_URL c [(js ''oauth_callback'', js ''oob'')])"
proof -
  show "reqUrl (requestTokenRequest e c) = REQUEST_TOKEN_URL"
    by (simp add: requestTokenRequest_def)
  show "map_of (reqParams (requestTokenRequest e c)) (js ''oauth_callback'') = Some (js ''oob'')"
    by (simp add: requestTokenRequest_def signedParams_def map_of_spread)
  have "map_of [(js ''oauth_callback'', js ''oob'')] (js ''oauth_token'') = None"
    by (simp add: oauth_names_distinct)
  then show "map_of (reqParams (requestTokenRequest e c)) (js ''oauth_token'') =
     (if truthy (accessToken c) then Some (orEmpty (accessToken c)) else None)"
    by (simp only: requestTokenRequest_def signedParams_def request.simps signed_oauth_token)
  have "map_of [(js ''oauth_callback'', js ''oob'')] (js ''oauth_signature'') = None"
    by (simp add: js_def)
  then show "map_of (reqParams (requestTokenRequest e c)) (js ''oauth_signature'') =
     Some (signatureOf e (js ''GET'') REQUEST_TOKEN_URL c [(js ''oauth_callback'', js ''oob'')])"
    by (simp only: requestTokenRequest_def signedParams_def request.simps signed_oauth_signature)
qed

lemma sampleCached_facts:
  "hasApiCredentials sampleCached" "oauth2Token sampleCached = Some (js ''T'')"
  "oauth2TokenExpiry sampleCached = 100000" "truthy (oauth2Token sampleCached)"
  using sample_hasApiCredentials(1)
  by (simp_all add: sampleCached_def hasApiCredentials_def truthy_def js_def)

lemma start_auth_Inl:
  "start_auth e s resp = (Inl err, s', out) \<Longrightarrow> s' = s"
  by (auto simp: start_auth_def split: sum.splits prod.splits)

text \<open>
  Without a stored user token the request-token call is signed with the consumer
  credentials alone: no \<open>oauth_token\<close>, and an empty token secret in the key.
\<close>

lemma requestToken_consumer_only:
  assumes "accessToken c = None" and "accessTokenSecret c = None"
  shows "map_of (reqParams (requestTokenRequest e c)) (js ''oauth_token'') = None"
    and "\<exists>base. map_of (reqParams (requestTokenRequest e c)) (js ''oauth_signature'') =
           Some (hmacSha1 e (rfc3986_encode (consumerSecret c) @ js ''&'') base)"
proof -
  show "map_of (reqParams (requestTokenRequest e c)) (js ''oauth_token'') = None"
    using assms(1) by (simp add: requestTokenRequest_params truthy_def)
  have "rfc3986_encode (orEmpty (accessTokenSecret c)) = []"
    using assms(2) by (simp add: orEmpty_def rfc3986_encode_def)
  then have "\<exists>base. signatureOf e (js ''GET'') REQUEST_TOKEN_URL c
                 [(js ''oauth_callback'', js ''oob'')] =
               hmacSha1 e (rfc3986_encode (consumerSecret c) @ js ''&'') base"
    unfolding signatureOf_def by (intro exI) simp
  then show "\<exists>base. map_of (reqParams (requestTokenRequest e c)) (js ''oauth_signature'') =
           Some (hmacSha1 e (rfc3986_encode (consumerSecret c) @ js ''&'') base)"
    by (simp add: requestTokenRequest_params)
qed

section \<open>Properties of calls in flight together\<close>

lemma step_Call_stale:
  "hasApiCredentials (srv r) \<Longrightarrow> tokenStale (srv r) now \<Longrightarrow>
   step r (Call i now) =
     r\<lparr>sent := sent r @ [tokenRequest (srv r)], waiting := insert i (waiting r)\<rparr>"
  by (auto simp: getOAuth2Token_begin_def ensureApiCredentials_def tokenStale_def)

lemma calls_phase:
  "hasApiCredentials (srv r) \<Longrightarrow> list_all (tokenStale (srv r)) nows \<Longrightarrow>
   foldl step r (map (\<lambda>(i, now). Call i now) (enumerate k nows)) =
     r\<lparr>sent := sent r @ replicate (length nows) (tokenRequest (srv r)),
       waiting := waiting r \<union> {k..<k + length nows}\<rparr>"
proof (induction nows arbitrary: r k)
  case Nil
  show ?case by simp
next
  case (Cons now nows)
  let ?r = "r\<lparr>sent := sent r @ [tokenRequest (srv r)], waiting := insert k (waiting r)\<rparr>"
  from Cons.prems have st: "step r (Call k now) = ?r"
    by (simp add: step_Call_stale del: step.simps)
  have set: "insert k (waiting r) \<union> {Suc k..<Suc k + length nows}
      = waiting r \<union> {k..<k + length (now # nows)}"
    by auto
  from Cons.prems have "foldl step ?r (map (\<lambda>(i, now). Call i now) (enumerate (Suc k) nows)) =
     ?r\<lparr>sent := sent ?r @ replicate (length nows) (tokenRequest (srv ?r)),
       waiting := waiting ?r \<union> {Suc k..<Suc k + length nows}\<rparr>"
    by (intro Cons.IH) simp_all
  with st set show ?case
    by (simp add: replicate_app_Cons_same del: step.simps)
qed


lemma step_Reply_ok:
  "i \<in> waiting r \<Longrightarrow>
   step r (Reply i (grantResponse data) now) =
     r\<lparr>srv := (srv r)\<lparr>oauth2Token := Some (access_token data),
                       oauth2TokenExpiry := now + (expires_in data - 60) * 1000\<rparr>,
       waiting := waiting r - {i},
       returned := returned r @ [(i, Inr (access_token data))]\<rparr>"
  by (simp add: getOAuth2Token_resume_def grantResponse_def)

lemma replies_phase:
  "{k..<k + length grants} \<subseteq> waiting r \<Longrightarrow>
   foldl step r (map (\<lambda>(i, (resp, now)). Reply i resp now) (enumerate k (okReplies grants))) =
     r\<lparr>srv := cacheAfter (srv r) grants,
       waiting := waiting r - {k..<k + length grants},
       returned := returned r @
         map (\<lambda>(i, (data, now)). (i, Inr (access_token data))) (enumerate k grants)\<rparr>"
proof (induction grants arbitrary: r k)
  case Nil
  show ?case by (simp add: okReplies_def cacheAfter_def)
next
  case (Cons g grants)
  obtain data now where g: "g = (data, now)" by (cases g)
  let ?r = "r\<lparr>srv := (srv r)\<lparr>oauth2Token := Some (access_token data),
                       oauth2TokenExpiry := now + (expires_in data - 60) * 1000\<rparr>,
       waiting := waiting r - {k},
       returned := returned r @ [(k, Inr (access_token data))]\<rparr>"
  from Cons.prems have "k \<in> waiting r" by auto
  then have st: "step r (Reply k (grantResponse data) now) = ?r"
    by (rule step_Reply_ok)
  from Cons.prems have sub: "{Suc k..<Suc k + length grants} \<subseteq> waiting ?r"
    by auto
  have set: "waiting r - {k} - {Suc k..<Suc k + length grants}
      = waiting r - {k..<k + length (g # grants)}"
    by auto
  from Cons.IH [OF sub] st set show ?case
    by (simp add: okReplies_def cacheAfter_def g del: step.simps)
qed

lemma cacheAfter_last:
  "grants \<noteq> [] \<Longrightarrow>
   oauth2Token (cacheAfter s grants) = Some (access_token (fst (last grants)))"
proof (induction grants arbitrary: s)
  case Nil
  then show ?case by simp
next
  case (Cons g grants)
  obtain data now where g: "g = (data, now)" by (cases g)
  show ?case
  proof (cases "grants = []")
    case True
    then show ?thesis by (simp add: cacheAfter_def g)
  next
    case False
    with Cons.IH [of "s\<lparr>oauth2Token := Some (access_token data),
        oauth2TokenExpiry := now + (expires_in data - 60) * 1000\<rparr>"]
    show ?thesis by (simp add: cacheAfter_def g)
  qed
qed


lemma sampleConfigured_stale: "tokenStale sampleConfigured now"
  by (simp add: tokenStale_def sampleConfigured_def truthy_def)



section \<open>The claims\<close>

subsection \<open>Claim C1: the signature base string\<close>

text \<open>
  C1 (as amended). For every method, and every URL and parameter record of well-formed
  strings, \<open>buildBaseString\<close> returns the method in upper case (\<open>toUpperCase\<close> above:
  the methods of the clients are \<open>GET\<close>, \<open>POST\<close>, \<open>PUT\<close> and \<open>DELETE\<close>), the
  percent-encoded URL and the percent-encoded parameter string, joined by \<open>&\<close>. The parameter string has one
  \<open>encKey=encVal\<close> pair for each key, joined by \<open>&\<close>, in the order of the unencoded keys
  (an object has each key once, so no tie on values arises). Whenever that order agrees
  with the order of the encoded keys, the result is the base string of the specification,
  whose entries are sorted by encoded key and then by encoded value. The encoded segments
  contain no \<open>&\<close>. \<open>percentEncode\<close> leaves a string of letters, digits and \<open>- _ . ~\<close>
  unchanged, writes a space as \<open>%20\<close> and \<open>! * ' ( )\<close> as \<open>%21 %2A %27 %28 %29\<close>.
\<close>

theorem buildBaseString_segments:
  "(isWellFormed url \<and> (\<forall>(k, v) \<in> set ps. isWellFormed k \<and> isWellFormed v) \<longrightarrow>
      buildBaseString method url ps =
        Inr (toUpperCase method @ js ''&'' @ rfc3986_encode url @ js ''&'' @
             rfc3986_encode (join (js ''&'')
               (map (\<lambda>k. rfc3986_encode k @ js ''='' @ rfc3986_encode (getProp ps k))
                 (sort (objectKeys ps))))) \<and>
      ((\<forall>k \<in> set (objectKeys ps). \<forall>k' \<in> set (objectKeys ps).
          (rfc3986_encode k \<le> rfc3986_encode k') = (k \<le> k')) \<longrightarrow>
       buildBaseString method url ps = Inr (spec_baseString method url (objectEntries ps)))) \<and>
   38 \<notin> set (rfc3986_encode x) \<and>
   (list_all rfc3986_unreserved s \<longrightarrow> percentEncode s = Inr s) \<and>
   percentEncode (js '' '') = Inr (js ''%20'') \<and>
   percentEncode (js ''!*'()'') = Inr (js ''%21%2A%27%28%29'')"
proof (intro conjI impI)
  assume wf: "isWellFormed url \<and> (\<forall>(k, v) \<in> set ps. isWellFormed k \<and> isWellFormed v)"
  then show code: "buildBaseString method url ps =
        Inr (toUpperCase method @ js ''&'' @ rfc3986_encode url @ js ''&'' @
             rfc3986_encode (join (js ''&'')
               (map (\<lambda>k. rfc3986_encode k @ js ''='' @ rfc3986_encode (getProp ps k))
                 (sort (objectKeys ps)))))"
    by (simp add: buildBaseString_wellFormed)
  assume "\<forall>k \<in> set (objectKeys ps). \<forall>k' \<in> set (objectKeys ps).
          (rfc3986_encode k \<le> rfc3986_encode k') = (k \<le> k')"
  then show "buildBaseString method url ps = Inr (spec_baseString method url (objectEntries ps))"
    unfolding code spec_baseString_def by (simp only: code_order_is_spec_order)
next
  show "38 \<notin> set (rfc3986_encode x)" by (rule rfc3986_encode_no_amp)
next
  assume "list_all rfc3986_unreserved s"
  then show "percentEncode s = Inr s" by (rule percentEncode_unreserved)
next
  show "percentEncode (js '' '') = Inr (js ''%20'')" by (rule percentEncode_space)
next
  show "percentEncode (js ''!*'()'') = Inr (js ''%21%2A%27%28%29'')" by (rule percentEncode_marks)
qed


text \<open>An instance: two keys given out of order, a value with a space.\<close>

theorem buildBaseString_segments_witness:
  "isWellFormed (js ''https://a.b/c'') \<and>
   list_all (\<lambda>(k, v). isWellFormed k \<and> isWellFormed v)
     [(js ''b'', js ''2 3''), (js ''a'', js ''1'')] \<and>
   list_all (\<lambda>k. list_all (\<lambda>k'. (rfc3986_encode k \<le> rfc3986_encode k') = (k \<le> k'))
       (objectKeys [(js ''b'', js ''2 3''), (js ''a'', js ''1'')]))
     (objectKeys [(js ''b'', js ''2 3''), (js ''a'', js ''1'')]) \<and>
   list_all rfc3986_unreserved (js ''aZ09-_.~'') \<and>
   buildBaseString (js ''get'') (js ''https://a.b/c'') [(js ''b'', js ''2 3''), (js ''a'', js ''1'')]
     = Inr (js ''GET&https%3A%2F%2Fa.b%2Fc&a%3D1%26b%3D2%25203'') \<and>
   buildBaseString (js ''get'') (js ''https://a.b/c'') [(js ''b'', js ''2 3''), (js ''a'', js ''1'')]
     = Inr (spec_baseString (js ''get'') (js ''https://a.b/c'')
              (objectEntries [(js ''b'', js ''2 3''), (js ''a'', js ''1'')])) \<and>
   percentEncode (js ''aZ09-_.~'') = Inr (js ''aZ09-_.~'')"
proof -
  let ?U = "js ''https://a.b/c''"
  let ?P = "[(js ''b'', js ''2 3''), (js ''a'', js ''1'')]"
  let ?S = "js ''aZ09-_.~''"
  have wf: "isWellFormed ?U \<and> (\<forall>(k, v) \<in> set ?P. isWellFormed k \<and> isWellFormed v)"
    by (simp add: isWellFormed_def js_def isLow_def isHigh_def)
  have agree: "\<forall>k \<in> set (objectKeys ?P). \<forall>k' \<in> set (objectKeys ?P).
      (rfc3986_encode k \<le> rfc3986_encode k') = (k \<le> k')"
    by (simp add: objectKeys_def js_def enc_defs)
  have unres: "list_all rfc3986_unreserved ?S"
    by (simp add: js_def rfc3986_unreserved_def isAlnum_def)
  note th = buildBaseString_segments [of ?U ?P "js ''get''" "[]" ?S]
  from th wf have code: "buildBaseString (js ''get'') ?U ?P =
        Inr (toUpperCase (js ''get'') @ js ''&'' @ rfc3986_encode ?U @ js ''&'' @
             rfc3986_encode (join (js ''&'')
               (map (\<lambda>k. rfc3986_encode k @ js ''='' @ rfc3986_encode (getProp ?P k))
                 (sort (objectKeys ?P)))))"
    by blast
  have val: "toUpperCase (js ''get'') @ js ''&'' @ rfc3986_encode ?U @ js ''&'' @
             rfc3986_encode (join (js ''&'')
               (map (\<lambda>k. rfc3986_encode k @ js ''='' @ rfc3986_encode (getProp ?P k))
                 (sort (objectKeys ?P)))) = js ''GET&https%3A%2F%2Fa.b%2Fc&a%3D1%26b%3D2%25203''"
    by (simp add: objectKeys_def getProp_def js_def enc_defs toUpperCase_def upperUnit_def)
  from th wf agree have spec: "buildBaseString (js ''get'') ?U ?P =
      Inr (spec_baseString (js ''get'') ?U (objectEntries ?P))"
    by blast
  from th unres have pe: "percentEncode ?S = Inr ?S" by blast
  from code val have cv: "buildBaseString (js ''get'') ?U ?P =
      Inr (js ''GET&https%3A%2F%2Fa.b%2Fc&a%3D1%26b%3D2%25203'')"
    by (simp only:)
  from wf agree unres cv spec pe show ?thesis
    unfolding list_all_iff by blast
qed

text \<open>
  The claim as first stated fails: the keys \<open>a/\<close> and \<open>a-\<close> sort as \<open>a-\<close>, \<open>a/\<close>
  unencoded, and as \<open>a%2F\<close>, \<open>a-\<close> encoded; and a lone surrogate makes the signer throw.
\<close>

theorem buildBaseString_encoded_order_counterexample:
  "buildBaseString (js ''GET'') (js ''u'') [(js ''a/'', js ''1''), (js ''a-'', js ''2'')]
     \<noteq> Inr (spec_baseString (js ''GET'') (js ''u'')
              (objectEntries [(js ''a/'', js ''1''), (js ''a-'', js ''2'')])) \<and>
   buildBaseString (js ''GET'') (js ''u'') [(js ''a'', [55296])] = Inl URIError"
proof -
  let ?P = "[(js ''a/'', js ''1''), (js ''a-'', js ''2'')]"
  have code: "buildBaseString (js ''GET'') (js ''u'') ?P = Inr (js ''GET&u&a-%3D2%26a%252F%3D1'')"
    by (simp add: buildBaseString_def objectKeys_def getProp_def js_def pe_defs)
  have ps: "spec_paramString (objectEntries ?P) = js ''a%2F=1&a-=2''"
    by (simp add: spec_paramString_def objectEntries_def objectKeys_def getProp_def js_def enc_defs)
  have spec: "spec_baseString (js ''GET'') (js ''u'') (objectEntries ?P)
      = js ''GET&u&a%252F%3D1%26a-%3D2''"
    unfolding spec_baseString_def ps
    by (simp add: js_def enc_defs toUpperCase_def upperUnit_def)
  have "js ''GET&u&a-%3D2%26a%252F%3D1'' \<noteq> js ''GET&u&a%252F%3D1%26a-%3D2''"
    by (simp add: js_def)
  with code spec have 1: "buildBaseString (js ''GET'') (js ''u'') ?P
     \<noteq> Inr (spec_baseString (js ''GET'') (js ''u'') (objectEntries ?P))"
    by simp
  have 2: "buildBaseString (js ''GET'') (js ''u'') [(js ''a'', [55296])] = Inl URIError"
    by (simp add: buildBaseString_def objectKeys_def getProp_def js_def pe_defs)
  from 1 2 show ?thesis by simp
qed

subsection \<open>Claim C2: the OAuth2 token cache\<close>

text \<open>
  C2 (as amended). With the API credentials configured: if a non-empty token is cached
  and \<open>now\<close> is before the cached expiry, \<open>getOAuth2Token\<close> returns it and sends nothing.
  Otherwise it sends one client-credentials grant; on a success it caches the new token
  with the expiry \<open>now + expires_in - 60 s\<close> (the clock read after the response) and
  returns it; on a non-success status it fails with the status and the body, and the
  cached token and expiry are unchanged. The margin of 60 seconds is taken off once,
  when the token is cached. Without credentials the call fails as not configured.
\<close>

theorem getOAuth2Token_cache:
  "(\<not> hasApiCredentials s \<longrightarrow> getOAuth2Token s now resp now' = (Inl NotConfigured, s, [])) \<and>
   (hasApiCredentials s \<longrightarrow>
      (truthy (oauth2Token s) \<and> now < oauth2TokenExpiry s \<longrightarrow>
         getOAuth2Token s now resp now' = (Inr (orEmpty (oauth2Token s)), s, [])) \<and>
      (\<not> (truthy (oauth2Token s) \<and> now < oauth2TokenExpiry s) \<longrightarrow>
         (\<forall>data. respOk resp \<and> respJson resp = Some data \<longrightarrow>
            getOAuth2Token s now resp now' =
              (Inr (access_token data),
               s\<lparr>oauth2Token := Some (access_token data),
                 oauth2TokenExpiry := now' + expires_in data * 1000 - 60 * 1000\<rparr>,
               [tokenRequest s])) \<and>
         (\<not> respOk resp \<longrightarrow>
            getOAuth2Token s now resp now' =
              (Inl (OAuth2Failed (respStatus resp) (respText resp)), s, [tokenRequest s]))))"
  by (auto simp: getOAuth2Token_def getOAuth2Token_begin_def getOAuth2Token_resume_def
      ensureApiCredentials_def algebra_simps)



text \<open>A cached token in use, its refresh after the expiry, and a refused refresh.\<close>

theorem getOAuth2Token_cache_witness:
  "hasApiCredentials sampleCached \<and>
   getOAuth2Token sampleCached 30000 failedResponse 30000 = (Inr (js ''T''), sampleCached, []) \<and>
   getOAuth2Token sampleCached 100000 (grantResponse sampleGrant) 100500
     = (Inr (js ''N''),
        sampleCached\<lparr>oauth2Token := Some (js ''N''), oauth2TokenExpiry := 3640500\<rparr>,
        [tokenRequest sampleCached]) \<and>
   getOAuth2Token sampleCached 100000 failedResponse 100500
     = (Inl (OAuth2Failed 401 (js ''denied'')), sampleCached, [tokenRequest sampleCached])"
proof -
  note f = sampleCached_facts
  have g: "respOk (grantResponse sampleGrant)" "respJson (grantResponse sampleGrant) = Some sampleGrant"
    "access_token sampleGrant = js ''N''" "expires_in sampleGrant = 3600"
    by (simp_all add: grantResponse_def sampleGrant_def)
  have b: "\<not> respOk failedResponse" "respStatus failedResponse = 401"
    "respText failedResponse = js ''denied''"
    by (simp_all add: failedResponse_def)
  from getOAuth2Token_cache [of sampleCached 30000 failedResponse 30000] f
  have 1: "getOAuth2Token sampleCached 30000 failedResponse 30000
      = (Inr (js ''T''), sampleCached, [])"
    by (simp add: orEmpty_def)
  from getOAuth2Token_cache [of sampleCached 100000 "grantResponse sampleGrant" 100500] f g
  have 2: "getOAuth2Token sampleCached 100000 (grantResponse sampleGrant) 100500
     = (Inr (js ''N''),
        sampleCached\<lparr>oauth2Token := Some (js ''N''), oauth2TokenExpiry := 3640500\<rparr>,
        [tokenRequest sampleCached])"
    by simp
  from getOAuth2Token_cache [of sampleCached 100000 failedResponse 100500] f b
  have 3: "getOAuth2Token sampleCached 100000 failedResponse 100500
     = (Inl (OAuth2Failed 401 (js ''denied'')), sampleCached, [tokenRequest sampleCached])"
    by simp
  from f(1) 1 2 3 show ?thesis by blast
qed

text \<open>
  The claim as first stated fails: with the cached expiry 100000 and the time 50000, the
  test \<open>now < expiresAt - margin\<close> of the specification is false, and no grant is made.
\<close>

theorem getOAuth2Token_margin_counterexample:
  "hasApiCredentials sampleCached \<and>
   \<not> spec_tokenFresh sampleCached 50000 \<and>
   getOAuth2Token sampleCached 50000 (grantResponse sampleGrant) 50000
     = (Inr (js ''T''), sampleCached, [])"
proof -
  note f = sampleCached_facts
  have "\<not> spec_tokenFresh sampleCached 50000"
    by (simp add: spec_tokenFresh_def f)
  moreover have "getOAuth2Token sampleCached 50000 (grantResponse sampleGrant) 50000
     = (Inr (js ''T''), sampleCached, [])"
    by (simp add: getOAuth2Token_def getOAuth2Token_begin_def ensureApiCredentials_def f(1,3)
        f(4) [simplified f(2)] f(2) orEmpty_def)
  ultimately show ?thesis using f(1) by blast
qed


subsection \<open>Claim C3: concurrent callers of \<open>getOAuth2Token\<close>\<close>

text \<open>
  C3 (as amended). The code has no lock and no shared refresh. When \<open>N\<close> callers call
  \<open>getOAuth2Token\<close> together, each checking the cache before the first response is
  stored, with the credentials configured and no token in use, then each caller sends
  its own grant (\<open>N\<close> requests), each receives the token of its own response, and the
  cache ends with the token of the response stored last.
\<close>

theorem concurrent_callers_each_grant:
  "hasApiCredentials s \<and> list_all (tokenStale s) nows \<and> length grants = length nows \<longrightarrow>
     sent (runEvents s (together nows (okReplies grants)))
       = replicate (length nows) (tokenRequest s) \<and>
     returned (runEvents s (together nows (okReplies grants)))
       = map (\<lambda>(i, (data, now)). (i, Inr (access_token data))) (enumerate 0 grants) \<and>
     waiting (runEvents s (together nows (okReplies grants))) = {} \<and>
     (grants \<noteq> [] \<longrightarrow>
        oauth2Token (srv (runEvents s (together nows (okReplies grants))))
          = Some (access_token (fst (last grants))))"
proof
  assume a: "hasApiCredentials s \<and> list_all (tokenStale s) nows \<and> length grants = length nows"
  let ?r0 = "\<lparr>srv = s, sent = [], waiting = {}, returned = []\<rparr>"
  let ?r1 = "?r0\<lparr>sent := sent ?r0 @ replicate (length nows) (tokenRequest (srv ?r0)),
       waiting := waiting ?r0 \<union> {0..<0 + length nows}\<rparr>"
  from a have c: "foldl step ?r0 (map (\<lambda>(i, now). Call i now) (enumerate 0 nows)) = ?r1"
    by (intro calls_phase) simp_all
  from a have "{0..<0 + length grants} \<subseteq> waiting ?r1" by simp
  from replies_phase [OF this] a
  have r: "foldl step ?r1
      (map (\<lambda>(i, (resp, now)). Reply i resp now) (enumerate 0 (okReplies grants))) =
     ?r1\<lparr>srv := cacheAfter (srv ?r1) grants,
       waiting := waiting ?r1 - {0..<0 + length grants},
       returned := returned ?r1 @
         map (\<lambda>(i, (data, now)). (i, Inr (access_token data))) (enumerate 0 grants)\<rparr>"
    by simp
  have run: "runEvents s (together nows (okReplies grants)) =
     ?r1\<lparr>srv := cacheAfter (srv ?r1) grants,
       waiting := waiting ?r1 - {0..<0 + length grants},
       returned := returned ?r1 @
         map (\<lambda>(i, (data, now)). (i, Inr (access_token data))) (enumerate 0 grants)\<rparr>"
    unfolding runEvents_def together_def foldl_append c r ..
  from a show "sent (runEvents s (together nows (okReplies grants)))
       = replicate (length nows) (tokenRequest s) \<and>
     returned (runEvents s (together nows (okReplies grants)))
       = map (\<lambda>(i, (data, now)). (i, Inr (access_token data))) (enumerate 0 grants) \<and>
     waiting (runEvents s (together nows (okReplies grants))) = {} \<and>
     (grants \<noteq> [] \<longrightarrow>
        oauth2Token (srv (runEvents s (together nows (okReplies grants))))
          = Some (access_token (fst (last grants))))"
    unfolding run by (simp add: cacheAfter_last)
qed



text \<open>Two callers, answered with the tokens \<open>A\<close> and \<open>B\<close>.\<close>

theorem concurrent_callers_each_grant_witness:
  "hasApiCredentials sampleConfigured \<and>
   list_all (tokenStale sampleConfigured) [0, 0] \<and>
   sent (runEvents sampleConfigured
           (together [0, 0] (okReplies [(sampleGrantA, 10), (sampleGrantB, 20)])))
     = [tokenRequest sampleConfigured, tokenRequest sampleConfigured] \<and>
   returned (runEvents sampleConfigured
           (together [0, 0] (okReplies [(sampleGrantA, 10), (sampleGrantB, 20)])))
     = [(0, Inr (js ''A'')), (1, Inr (js ''B''))] \<and>
   oauth2Token (srv (runEvents sampleConfigured
           (together [0, 0] (okReplies [(sampleGrantA, 10), (sampleGrantB, 20)]))))
     = Some (js ''B'')"
proof -
  let ?g = "[(sampleGrantA, 10), (sampleGrantB, 20)] :: (grant \<times> int) list"
  have st: "list_all (tokenStale sampleConfigured) [0, 0]"
    by (simp add: sampleConfigured_stale)
  have len: "length ?g = length [0 :: int, 0]" by simp
  note th = concurrent_callers_each_grant [of sampleConfigured "[0, 0]" ?g]
  from th sample_hasApiCredentials(1) st len
  have 1: "sent (runEvents sampleConfigured (together [0, 0] (okReplies ?g)))
       = replicate (length [0 :: int, 0]) (tokenRequest sampleConfigured)"
    and 2: "returned (runEvents sampleConfigured (together [0, 0] (okReplies ?g)))
       = map (\<lambda>(i, (data, now)). (i, Inr (access_token data))) (enumerate 0 ?g)"
    and 3: "oauth2Token (srv (runEvents sampleConfigured (together [0, 0] (okReplies ?g))))
          = Some (access_token (fst (last ?g)))"
    by blast+
  from 1 have sent2: "sent (runEvents sampleConfigured (together [0, 0] (okReplies ?g)))
     = [tokenRequest sampleConfigured, tokenRequest sampleConfigured]"
    by (simp add: numeral_2_eq_2)
  from 2 have got2: "returned (runEvents sampleConfigured (together [0, 0] (okReplies ?g)))
     = [(0, Inr (js ''A'')), (1, Inr (js ''B''))]"
    by (simp add: sampleGrantA_def sampleGrantB_def)
  from 3 have cache2: "oauth2Token (srv (runEvents sampleConfigured (together [0, 0] (okReplies ?g))))
     = Some (js ''B'')"
    by (simp add: sampleGrantB_def)
  from sample_hasApiCredentials(1) st sent2 got2 cache2 show ?thesis by blast
qed


text \<open>
  The claim as first stated fails for two callers: two grants are sent, not one, and
  the callers receive different tokens.
\<close>

theorem concurrent_callers_two_grants_counterexample:
  "hasApiCredentials sampleConfigured \<and>
   oauth2Token sampleConfigured = None \<and>
   length (sent (runEvents sampleConfigured
           (together [0, 0] (okReplies [(sampleGrantA, 10), (sampleGrantB, 20)])))) = 2 \<and>
   map snd (returned (runEvents sampleConfigured
           (together [0, 0] (okReplies [(sampleGrantA, 10), (sampleGrantB, 20)]))))
     = [Inr (js ''A''), Inr (js ''B'')] \<and>
   js ''A'' \<noteq> js ''B''"
proof -
  let ?g = "[(sampleGrantA, 10), (sampleGrantB, 20)] :: (grant \<times> int) list"
  let ?r0 = "\<lparr>srv = sampleConfigured, sent = [], waiting = {}, returned = []\<rparr>"
  have "foldl step ?r0 (map (\<lambda>(i, now). Call i now) (enumerate 0 [0, 0])) =
     ?r0\<lparr>sent := sent ?r0 @ replicate (length [0 :: int, 0]) (tokenRequest (srv ?r0)),
       waiting := waiting ?r0 \<union> {0..<0 + length [0 :: int, 0]}\<rparr>"
    by (intro calls_phase) (simp_all add: sample_hasApiCredentials sampleConfigured_stale)
  then have c: "foldl step ?r0 (map (\<lambda>(i, now). Call i now) (enumerate 0 [0, 0])) =
     \<lparr>srv = sampleConfigured,
      sent = [tokenRequest sampleConfigured, tokenRequest sampleConfigured],
      waiting = {0..<2}, returned = []\<rparr>" (is "_ = ?r1")
    by (simp add: numeral_2_eq_2)
  have "{0..<0 + length ?g} \<subseteq> waiting ?r1" by simp
  from replies_phase [OF this]
  have r: "foldl step ?r1
      (map (\<lambda>(i, (resp, now)). Reply i resp now) (enumerate 0 (okReplies ?g))) =
     ?r1\<lparr>srv := cacheAfter (srv ?r1) ?g,
       waiting := waiting ?r1 - {0..<0 + length ?g},
       returned := returned ?r1 @
         map (\<lambda>(i, (data, now)). (i, Inr (access_token data))) (enumerate 0 ?g)\<rparr>" .
  have run: "runEvents sampleConfigured (together [0, 0] (okReplies ?g)) =
     ?r1\<lparr>srv := cacheAfter (srv ?r1) ?g,
       waiting := waiting ?r1 - {0..<0 + length ?g},
       returned := returned ?r1 @
         map (\<lambda>(i, (data, now)). (i, Inr (access_token data))) (enumerate 0 ?g)\<rparr>"
    unfolding runEvents_def together_def foldl_append c r ..
  have "length (sent (runEvents sampleConfigured (together [0, 0] (okReplies ?g)))) = 2"
    and "map snd (returned (runEvents sampleConfigured (together [0, 0] (okReplies ?g))))
     = [Inr (js ''A''), Inr (js ''B'')]"
    unfolding run by (simp_all add: sampleGrantA_def sampleGrantB_def)
  moreover have "oauth2Token sampleConfigured = None"
    by (simp add: sampleConfigured_def)
  ultimately show ?thesis
    using sample_hasApiCredentials(1) sample_nonempty(7) by blast
qed

subsection \<open>Claim C4: a profile call without a user access token\<close>

text \<open>
  C4 (as amended). A call through the profile client while the user access token or its
  secret is absent fails before anything is sent: no request leaves the client. The
  error is the not-authenticated one when the API credentials are configured, and the
  not-configured one when they are not, since \<open>ensureProfileAuth\<close> checks the API
  credentials first.
\<close>

theorem profile_call_without_user_token:
  "\<not> truthy (accessToken (oauth1Credentials s)) \<or>
   \<not> truthy (accessTokenSecret (oauth1Credentials s)) \<longrightarrow>
     profileClient_request e s req apiResp =
       (Inl (if hasApiCredentials s then NotAuthenticated else NotConfigured), [])"
  by (auto simp: profileClient_request_def oauth1Middleware_def ensureProfileAuth_def
      ensureApiCredentials_def)

text \<open>The configured server without a user token.\<close>

theorem profile_call_without_user_token_witness:
  "\<not> truthy (accessToken (oauth1Credentials sampleConfigured)) \<and>
   hasApiCredentials sampleConfigured \<and>
   profileClient_request sampleEnv sampleConfigured sampleRequest failedResponse
     = (Inl NotAuthenticated, [])"
proof -
  have a: "\<not> truthy (accessToken (oauth1Credentials sampleConfigured))"
    by (simp add: sampleConfigured_def truthy_def)
  note h = sample_hasApiCredentials(1)
  from profile_call_without_user_token [of sampleConfigured sampleEnv sampleRequest failedResponse] a
  have "profileClient_request sampleEnv sampleConfigured sampleRequest failedResponse =
       (Inl (if hasApiCredentials sampleConfigured then NotAuthenticated else NotConfigured), [])"
    by blast
  with a h show ?thesis by simp
qed

text \<open>
  The claim as first stated fails on the server that is not configured: the call fails
  with the not-configured error, which is not the not-authenticated one.
\<close>

theorem profile_call_unconfigured_counterexample:
  "\<not> truthy (accessToken (oauth1Credentials sampleUnconfigured)) \<and>
   \<not> truthy (accessTokenSecret (oauth1Credentials sampleUnconfigured)) \<and>
   profileClient_request sampleEnv sampleUnconfigured sampleRequest failedResponse
     = (Inl NotConfigured, []) \<and>
   NotConfigured \<noteq> NotAuthenticated"
proof -
  have "\<not> truthy (accessToken (oauth1Credentials sampleUnconfigured))"
    and "\<not> truthy (accessTokenSecret (oauth1Credentials sampleUnconfigured))"
    by (simp_all add: sampleUnconfigured_def truthy_def)
  moreover have "profileClient_request sampleEnv sampleUnconfigured sampleRequest failedResponse
     = (Inl NotConfigured, [])"
    by (simp add: profileClient_request_def oauth1Middleware_def ensureProfileAuth_def
        ensureApiCredentials_def sample_hasApiCredentials)
  ultimately show ?thesis by simp
qed


subsection \<open>Claim C5: \<open>start_auth\<close> in the authorized state\<close>

text \<open>
  C5 asks that \<open>start_auth\<close> sign the request-token call with the consumer credentials
  alone, also when a user access token is stored. The code passes the stored credentials
  to \<open>requestToken\<close> as they are. On the authorized sample server, whose user token is
  \<open>AT\<close> with secret \<open>ATS\<close>, the request carries \<open>oauth_callback=oob\<close>, but also
  \<open>oauth_token=AT\<close>, and it is signed under the key \<open>cs&ATS\<close> (the sample HMAC returns
  its key).
\<close>

theorem start_auth_authorized_signs_with_user_token:
  "\<exists>url s' q.
     start_auth sampleEnv sampleAuthorized (tokenResponse (js ''B'') (js ''SB''))
       = (Inr url, s', [q]) \<and>
     reqUrl q = REQUEST_TOKEN_URL \<and>
     map_of (reqParams q) (js ''oauth_callback'') = Some (js ''oob'') \<and>
     map_of (reqParams q) (js ''oauth_token'') = Some (js ''AT'') \<and>
     map_of (reqParams q) (js ''oauth_signature'') = Some (js ''cs&ATS'')"
proof -
  let ?c = "oauth1Credentials sampleAuthorized"
  let ?q = "requestTokenRequest sampleEnv ?c"
  have s: "start_auth sampleEnv sampleAuthorized (tokenResponse (js ''B'') (js ''SB''))
     = (Inr (AUTHORIZE_URL @ js ''?oauth_token='' @ js ''B''),
        sampleAuthorized\<lparr>pendingOAuth := Some \<lparr>token = js ''B'', secret = js ''SB''\<rparr>\<rparr>, [?q])"
    by (intro start_auth_ok sample_hasApiCredentials sample_wellFormed tokenResponse_get
        sample_nonempty)
  have c: "accessToken ?c = Some (js ''AT'')" "accessTokenSecret ?c = Some (js ''ATS'')"
    "consumerSecret ?c = js ''cs''"
    by (simp_all add: sampleAuthorized_def sampleConfigured_def)
  have tok: "map_of (reqParams ?q) (js ''oauth_token'') = Some (js ''AT'')"
    by (simp add: requestTokenRequest_params c truthy_def orEmpty_def sample_nonempty)
  have "rfc3986_encode (js ''cs'') @ js ''&'' @ rfc3986_encode (js ''ATS'') = js ''cs&ATS''"
    by (simp add: js_def enc_defs)
  then have "signatureOf sampleEnv (js ''GET'') REQUEST_TOKEN_URL ?c
      [(js ''oauth_callback'', js ''oob'')] = js ''cs&ATS''"
    by (simp add: signatureOf_def sampleEnv_def c orEmpty_def)
  then have sig: "map_of (reqParams ?q) (js ''oauth_signature'') = Some (js ''cs&ATS'')"
    by (simp add: requestTokenRequest_params)
  from s tok sig requestTokenRequest_params(1,2) [of sampleEnv ?c] show ?thesis
    by blast
qed

subsection \<open>Claim C6: \<open>complete_auth\<close> and the pending request token\<close>

text \<open>
  C6. \<open>complete_auth\<close> fails with the no-pending-flow error when no request token is
  pending, sending nothing and changing nothing. Whenever it fails, the state of the
  server, with its pending request token, and the configuration file are unchanged; in
  particular when the access-token endpoint answers with a non-success status, after
  the one request was sent. Only when it succeeds is the pending token cleared, the user
  access token and its secret stored in the credentials, and both written to the
  configuration file, whose other fields keep their values.
\<close>

theorem complete_auth_pending:
  "(pendingOAuth s = None \<longrightarrow>
      complete_auth e s file verifier resp = (Inl NoPendingOAuth, s, file, [])) \<and>
   (\<forall>err s' file' out.
      complete_auth e s file verifier resp = (Inl err, s', file', out) \<longrightarrow>
        s' = s \<and> file' = file) \<and>
   (\<forall>pending.
      pendingOAuth s = Some pending \<and> wfEnv e \<and> wfCredentials (oauth1Credentials s) \<and>
      isWellFormed (token pending) \<and> isWellFormed (secret pending) \<and>
      isWellFormed verifier \<and> \<not> respOk resp \<longrightarrow>
        complete_auth e s file verifier resp =
          (Inl (AccessTokenFailed (respStatus resp) (respText resp)), s, file,
           [accessTokenRequest e (oauth1Credentials s) (token pending) (secret pending)
              verifier])) \<and>
   (\<forall>s' file' out.
      complete_auth e s file verifier resp = (Inr (), s', file', out) \<longrightarrow>
        (\<exists>pending result.
           pendingOAuth s = Some pending \<and>
           accessToken' e (oauth1Credentials s) (token pending) (secret pending) verifier resp
             = (Inr result, out) \<and>
           pendingOAuth s' = None \<and>
           accessToken (oauth1Credentials s') = Some (accessTokenValue result) \<and>
           accessTokenSecret (oauth1Credentials s') = Some (accessTokenSecretValue result) \<and>
           consumerKey (oauth1Credentials s') = consumerKey (oauth1Credentials s) \<and>
           consumerSecret (oauth1Credentials s') = consumerSecret (oauth1Credentials s) \<and>
           (\<exists>saved. file' = Some saved \<and>
              cfg_accessToken saved = Some (accessTokenValue result) \<and>
              cfg_accessTokenSecret saved = Some (accessTokenSecretValue result) \<and>
              cfg_clientId saved = cfg_clientId (readExisting file) \<and>
              cfg_clientSecret saved = cfg_clientSecret (readExisting file) \<and>
              cfg_consumerSecret saved = cfg_consumerSecret (readExisting file))))"
proof (intro conjI allI impI)
  assume "pendingOAuth s = None"
  then show "complete_auth e s file verifier resp = (Inl NoPendingOAuth, s, file, [])"
    by (simp add: complete_auth_def)
next
  fix err s' file' out
  assume "complete_auth e s file verifier resp = (Inl err, s', file', out)"
  then show "s' = s" and "file' = file"
    by (auto simp: complete_auth_def split: option.splits prod.splits sum.splits)
next
  fix pending
  assume a: "pendingOAuth s = Some pending \<and> wfEnv e \<and> wfCredentials (oauth1Credentials s) \<and>
      isWellFormed (token pending) \<and> isWellFormed (secret pending) \<and>
      isWellFormed verifier \<and> \<not> respOk resp"
  let ?q = "accessTokenRequest e (oauth1Credentials s) (token pending) (secret pending) verifier"
  from a have "snd (accessToken' e (oauth1Credentials s) (token pending) (secret pending)
      verifier resp) = [?q]"
    by (simp add: accessToken'_sends)
  with a have "accessToken' e (oauth1Credentials s) (token pending) (secret pending) verifier resp
      = (Inl (AccessTokenFailed (respStatus resp) (respText resp)), [?q])"
    by (auto simp: accessToken'_def Let_def split: sum.splits)
  with a show "complete_auth e s file verifier resp =
          (Inl (AccessTokenFailed (respStatus resp) (respText resp)), s, file, [?q])"
    by (simp add: complete_auth_def)
next
  fix s' file' out
  assume a: "complete_auth e s file verifier resp = (Inr (), s', file', out)"
  then obtain pending where p: "pendingOAuth s = Some pending"
    by (auto simp: complete_auth_def split: option.splits)
  with a obtain result where r: "accessToken' e (oauth1Credentials s) (token pending)
      (secret pending) verifier resp = (Inr result, out)"
    by (auto simp: complete_auth_def split: prod.splits sum.splits)
  from a p r have s': "s' = s\<lparr>oauth1Credentials :=
                    (oauth1Credentials s)\<lparr>accessToken := Some (accessTokenValue result),
                                           accessTokenSecret :=
                                             Some (accessTokenSecretValue result)\<rparr>,
                  pendingOAuth := None\<rparr>"
    and f': "file' = saveConfig file
                  (emptyConfig\<lparr>cfg_accessToken := Some (accessTokenValue result),
                                cfg_accessTokenSecret := Some (accessTokenSecretValue result)\<rparr>)"
    by (simp_all add: complete_auth_def)
  from f' have "\<exists>saved. file' = Some saved \<and>
              cfg_accessToken saved = Some (accessTokenValue result) \<and>
              cfg_accessTokenSecret saved = Some (accessTokenSecretValue result) \<and>
              cfg_clientId saved = cfg_clientId (readExisting file) \<and>
              cfg_clientSecret saved = cfg_clientSecret (readExisting file) \<and>
              cfg_consumerSecret saved = cfg_consumerSecret (readExisting file)"
    by (simp add: saveConfig_def Let_def spreadConfig_def spreadField_def emptyConfig_def)
  with p r s' show "\<exists>pending result.
           pendingOAuth s = Some pending \<and>
           accessToken' e (oauth1Credentials s) (token pending) (secret pending) verifier resp
             = (Inr result, out) \<and>
           pendingOAuth s' = None \<and>
           accessToken (oauth1Credentials s') = Some (accessTokenValue result) \<and>
           accessTokenSecret (oauth1Credentials s') = Some (accessTokenSecretValue result) \<and>
           consumerKey (oauth1Credentials s') = consumerKey (oauth1Credentials s) \<and>
           consumerSecret (oauth1Credentials s') = consumerSecret (oauth1Credentials s) \<and>
           (\<exists>saved. file' = Some saved \<and>
              cfg_accessToken saved = Some (accessTokenValue result) \<and>
              cfg_accessTokenSecret saved = Some (accessTokenSecretValue result) \<and>
              cfg_clientId saved = cfg_clientId (readExisting file) \<and>
              cfg_clientSecret saved = cfg_clientSecret (readExisting file) \<and>
              cfg_consumerSecret saved = cfg_consumerSecret (readExisting file))"
    by simp
qed


text \<open>
  Instances: no pending token; a pending token and a refusal of the endpoint; a pending
  token and a grant of the endpoint.
\<close>

theorem complete_auth_pending_witness:
  "complete_auth sampleEnv sampleConfigured None (js ''v'') failedResponse
     = (Inl NoPendingOAuth, sampleConfigured, None, []) \<and>
   complete_auth sampleEnv samplePending None (js ''v'') failedResponse
     = (Inl (AccessTokenFailed 401 (js ''denied'')), samplePending, None,
        [accessTokenRequest sampleEnv (oauth1Credentials samplePending) (js ''B'') (js ''SB'')
           (js ''v'')]) \<and>
   (\<exists>s' saved out.
      complete_auth sampleEnv samplePending None (js ''v'') (tokenResponse (js ''AT'') (js ''ATS''))
        = (Inr (), s', Some saved, out) \<and>
      pendingOAuth s' = None \<and>
      accessToken (oauth1Credentials s') = Some (js ''AT'') \<and>
      accessTokenSecret (oauth1Credentials s') = Some (js ''ATS'') \<and>
      cfg_accessToken saved = Some (js ''AT'') \<and>
      cfg_accessTokenSecret saved = Some (js ''ATS''))"
proof -
  note th = complete_auth_pending
  have p0: "pendingOAuth sampleConfigured = None"
    by (simp add: sampleConfigured_def)
  with th [of sampleConfigured sampleEnv None "js ''v''" failedResponse]
  have 1: "complete_auth sampleEnv sampleConfigured None (js ''v'') failedResponse
     = (Inl NoPendingOAuth, sampleConfigured, None, [])"
    by blast
  let ?p = "\<lparr>token = js ''B'', secret = js ''SB''\<rparr>"
  have p1: "pendingOAuth samplePending = Some ?p"
    by (simp add: samplePending_def)
  have bad: "\<not> respOk failedResponse" "respStatus failedResponse = 401"
    "respText failedResponse = js ''denied''"
    by (simp_all add: failedResponse_def)
  from th [of samplePending sampleEnv None "js ''v''" failedResponse] p1 bad(1) sample_wellFormed
  have "complete_auth sampleEnv samplePending None (js ''v'') failedResponse =
          (Inl (AccessTokenFailed (respStatus failedResponse) (respText failedResponse)),
           samplePending, None,
           [accessTokenRequest sampleEnv (oauth1Credentials samplePending) (token ?p) (secret ?p)
              (js ''v'')])"
    by (elim conjE allE [of _ ?p]) simp
  with bad have 2: "complete_auth sampleEnv samplePending None (js ''v'') failedResponse
     = (Inl (AccessTokenFailed 401 (js ''denied'')), samplePending, None,
        [accessTokenRequest sampleEnv (oauth1Credentials samplePending) (js ''B'') (js ''SB'')
           (js ''v'')])"
    by simp
  let ?ok = "tokenResponse (js ''AT'') (js ''ATS'')"
  have "accessToken' sampleEnv (oauth1Credentials samplePending) (js ''B'') (js ''SB'') (js ''v'') ?ok
      = (Inr \<lparr>accessTokenValue = js ''AT'', accessTokenSecretValue = js ''ATS''\<rparr>,
         [accessTokenRequest sampleEnv (oauth1Credentials samplePending) (js ''B'') (js ''SB'')
            (js ''v'')])"
    by (intro accessToken'_ok sample_wellFormed tokenResponse_get sample_nonempty)
  with p1 obtain s' file' out where
    c: "complete_auth sampleEnv samplePending None (js ''v'') ?ok = (Inr (), s', file', out)"
    by (simp add: complete_auth_def)
  from th [of samplePending sampleEnv None "js ''v''" ?ok] c
  obtain pending result saved where
    r: "accessToken' sampleEnv (oauth1Credentials samplePending) (token pending) (secret pending)
          (js ''v'') ?ok = (Inr result, out)"
    and pp: "pendingOAuth samplePending = Some pending"
    and q: "pendingOAuth s' = None"
       "accessToken (oauth1Credentials s') = Some (accessTokenValue result)"
       "accessTokenSecret (oauth1Credentials s') = Some (accessTokenSecretValue result)"
       "file' = Some saved"
       "cfg_accessToken saved = Some (accessTokenValue result)"
       "cfg_accessTokenSecret saved = Some (accessTokenSecretValue result)"
    by blast
  from r have "accessTokenValue result = js ''AT''" "accessTokenSecretValue result = js ''ATS''"
    by (auto simp: accessToken'_def Let_def tokenResponse_def searchGet_def orEmpty_def js_def
        split: sum.splits if_splits)
  with c q have 3: "\<exists>s' saved out.
      complete_auth sampleEnv samplePending None (js ''v'') ?ok = (Inr (), s', Some saved, out) \<and>
      pendingOAuth s' = None \<and>
      accessToken (oauth1Credentials s') = Some (js ''AT'') \<and>
      accessTokenSecret (oauth1Credentials s') = Some (js ''ATS'') \<and>
      cfg_accessToken saved = Some (js ''AT'') \<and>
      cfg_accessTokenSecret saved = Some (js ''ATS'')"
    by auto
  from 1 2 3 show ?thesis by blast
qed

subsection \<open>Claim C7: a second \<open>start_auth\<close> overwrites the pending token\<close>

text \<open>
  C7. The server has one slot for a pending request token, and a second \<open>start_auth\<close>
  overwrites it. Take a server with its API credentials set and two replies of the
  request-token endpoint, both successful, the first carrying token \<open>A\<close> with its secret
  and the second token \<open>B\<close> with its secret (all strings well formed, the reply bodies
  otherwise arbitrary). Then the first \<open>start_auth\<close> succeeds and leaves \<open>A\<close> pending; the
  second \<open>start_auth\<close>, called while \<open>A\<close> is pending, succeeds as well, and the state after
  it is the first state with \<open>B\<close> and its secret in the slot: nothing of \<open>A\<close> remains.
  Every request that \<open>complete_auth\<close> then sends goes to the access-token endpoint with
  \<open>oauth_token\<close> equal to \<open>B\<close> (so not \<open>A\<close>, when they differ), whatever verifier is given;
  and with a well-formed verifier it does send that one request, signed with the secret
  of \<open>B\<close>. (A \<open>start_auth\<close> that fails leaves the slot as it was: \<open>start_auth_Inl\<close>.)
\<close>

theorem second_start_overwrites_pending:
  assumes "hasApiCredentials s" and "wfCredentials (oauth1Credentials s)"
    and "wfEnv e1" and "wfEnv e2"
    and "respOk respA"
    and "searchGet (respForm respA) (js ''oauth_token'') = Some tokA" and "tokA \<noteq> []"
    and "searchGet (respForm respA) (js ''oauth_token_secret'') = Some secA" and "secA \<noteq> []"
    and "respOk respB"
    and "searchGet (respForm respB) (js ''oauth_token'') = Some tokB" and "tokB \<noteq> []"
    and "searchGet (respForm respB) (js ''oauth_token_secret'') = Some secB" and "secB \<noteq> []"
  shows "start_auth e1 s respA =
       (Inr (AUTHORIZE_URL @ js ''?oauth_token='' @ tokA),
        s\<lparr>pendingOAuth := Some \<lparr>token = tokA, secret = secA\<rparr>\<rparr>,
        [requestTokenRequest e1 (oauth1Credentials s)]) \<and>
     start_auth e2 (s\<lparr>pendingOAuth := Some \<lparr>token = tokA, secret = secA\<rparr>\<rparr>) respB =
       (Inr (AUTHORIZE_URL @ js ''?oauth_token='' @ tokB),
        s\<lparr>pendingOAuth := Some \<lparr>token = tokB, secret = secB\<rparr>\<rparr>,
        [requestTokenRequest e2 (oauth1Credentials s)]) \<and>
     snd (snd (snd (complete_auth e3 (s\<lparr>pendingOAuth := Some \<lparr>token = tokB, secret = secB\<rparr>\<rparr>)
         file verifier resp)))
       = snd (accessToken' e3 (oauth1Credentials s) tokB secB verifier resp) \<and>
     (\<forall>q \<in> set (snd (snd (snd (complete_auth e3
                   (s\<lparr>pendingOAuth := Some \<lparr>token = tokB, secret = secB\<rparr>\<rparr>)
                   file verifier resp)))).
        reqUrl q = ACCESS_TOKEN_URL \<and>
        map_of (reqParams q) (js ''oauth_token'') = Some tokB \<and>
        (tokA \<noteq> tokB \<longrightarrow> map_of (reqParams q) (js ''oauth_token'') \<noteq> Some tokA)) \<and>
     (wfEnv e3 \<and> isWellFormed tokB \<and> isWellFormed secB \<and> isWellFormed verifier \<longrightarrow>
        snd (snd (snd (complete_auth e3 (s\<lparr>pendingOAuth := Some \<lparr>token = tokB, secret = secB\<rparr>\<rparr>)
            file verifier resp)))
          = [accessTokenRequest e3 (oauth1Credentials s) tokB secB verifier])"
proof -
  let ?sA = "s\<lparr>pendingOAuth := Some \<lparr>token = tokA, secret = secA\<rparr>\<rparr>"
  let ?sB = "s\<lparr>pendingOAuth := Some \<lparr>token = tokB, secret = secB\<rparr>\<rparr>"
  let ?out = "snd (snd (snd (complete_auth e3 ?sB file verifier resp)))"
  have a: "start_auth e1 s respA =
       (Inr (AUTHORIZE_URL @ js ''?oauth_token='' @ tokA), ?sA,
        [requestTokenRequest e1 (oauth1Credentials s)])"
    using assms(1,3,2,5-9) by (rule start_auth_ok)
  have credsA: "hasApiCredentials ?sA" "wfCredentials (oauth1Credentials ?sA)"
    using assms(1,2) by (simp_all add: hasApiCredentials_def)
  have "start_auth e2 ?sA respB =
       (Inr (AUTHORIZE_URL @ js ''?oauth_token='' @ tokB),
        ?sA\<lparr>pendingOAuth := Some \<lparr>token = tokB, secret = secB\<rparr>\<rparr>,
        [requestTokenRequest e2 (oauth1Credentials ?sA)])"
    using credsA(1) assms(4) credsA(2) assms(10-14) by (rule start_auth_ok)
  then have b: "start_auth e2 ?sA respB =
       (Inr (AUTHORIZE_URL @ js ''?oauth_token='' @ tokB), ?sB,
        [requestTokenRequest e2 (oauth1Credentials s)])"
    by simp
  have c: "?out = snd (accessToken' e3 (oauth1Credentials s) tokB secB verifier resp)"
    by (simp add: complete_auth_def split: prod.splits sum.splits)
  obtain r out where
    x: "accessToken' e3 (oauth1Credentials s) tokB secB verifier resp = (r, out)"
    by (cases "accessToken' e3 (oauth1Credentials s) tokB secB verifier resp")
  from accessToken'_requests [OF x assms(12)] c x
  have d: "\<forall>q \<in> set ?out.
        reqUrl q = ACCESS_TOKEN_URL \<and>
        map_of (reqParams q) (js ''oauth_token'') = Some tokB \<and>
        (tokA \<noteq> tokB \<longrightarrow> map_of (reqParams q) (js ''oauth_token'') \<noteq> Some tokA)"
    by auto
  have f: "wfEnv e3 \<and> isWellFormed tokB \<and> isWellFormed secB \<and> isWellFormed verifier \<longrightarrow>
        ?out = [accessTokenRequest e3 (oauth1Credentials s) tokB secB verifier]"
    using assms(2) c by (simp add: accessToken'_sends)
  from a b c d f show ?thesis by blast
qed

text \<open>The scenario of the specification: start gives \<open>A\<close>, start gives \<open>B\<close>, complete.\<close>

theorem second_start_overwrites_pending_witness:
  "\<exists>sA sB urlA urlB outA outB q.
     start_auth sampleEnv sampleConfigured (tokenResponse (js ''A'') (js ''SA''))
       = (Inr urlA, sA, outA) \<and>
     start_auth sampleEnv sA (tokenResponse (js ''B'') (js ''SB'')) = (Inr urlB, sB, outB) \<and>
     pendingOAuth sA = Some \<lparr>token = js ''A'', secret = js ''SA''\<rparr> \<and>
     pendingOAuth sB = Some \<lparr>token = js ''B'', secret = js ''SB''\<rparr> \<and>
     sB = sampleConfigured\<lparr>pendingOAuth := Some \<lparr>token = js ''B'', secret = js ''SB''\<rparr>\<rparr> \<and>
     snd (snd (snd (complete_auth sampleEnv sB None (js ''v'') failedResponse))) = [q] \<and>
     reqUrl q = ACCESS_TOKEN_URL \<and>
     map_of (reqParams q) (js ''oauth_token'') = Some (js ''B'') \<and>
     map_of (reqParams q) (js ''oauth_token'') \<noteq> Some (js ''A'')"
proof -
  let ?sA = "sampleConfigured\<lparr>pendingOAuth := Some \<lparr>token = js ''A'', secret = js ''SA''\<rparr>\<rparr>"
  let ?sB = "sampleConfigured\<lparr>pendingOAuth := Some \<lparr>token = js ''B'', secret = js ''SB''\<rparr>\<rparr>"
  let ?out = "snd (snd (snd (complete_auth sampleEnv ?sB None (js ''v'') failedResponse)))"
  let ?q = "accessTokenRequest sampleEnv (oauth1Credentials sampleConfigured)
              (js ''B'') (js ''SB'') (js ''v'')"
  note th = second_start_overwrites_pending [OF sample_hasApiCredentials(1) sample_wellFormed(2)
      sample_wellFormed(1) sample_wellFormed(1)
      tokenResponse_get(1) tokenResponse_get(2) sample_nonempty(1)
      tokenResponse_get(3) sample_nonempty(2)
      tokenResponse_get(1) tokenResponse_get(2) sample_nonempty(3)
      tokenResponse_get(3) sample_nonempty(4),
      where ?e3.0 = sampleEnv and ?file = None and ?verifier = "js ''v''"
        and ?resp = failedResponse]
  from th have a: "start_auth sampleEnv sampleConfigured (tokenResponse (js ''A'') (js ''SA''))
      = (Inr (AUTHORIZE_URL @ js ''?oauth_token='' @ js ''A''), ?sA,
         [requestTokenRequest sampleEnv (oauth1Credentials sampleConfigured)])"
    and b: "start_auth sampleEnv ?sA (tokenResponse (js ''B'') (js ''SB''))
      = (Inr (AUTHORIZE_URL @ js ''?oauth_token='' @ js ''B''), ?sB,
         [requestTokenRequest sampleEnv (oauth1Credentials sampleConfigured)])"
    by blast+
  from th sample_wellFormed have out: "?out = [?q]"
    by blast
  from th have "\<forall>q \<in> set ?out.
        reqUrl q = ACCESS_TOKEN_URL \<and>
        map_of (reqParams q) (js ''oauth_token'') = Some (js ''B'') \<and>
        (js ''A'' \<noteq> js ''B'' \<longrightarrow> map_of (reqParams q) (js ''oauth_token'') \<noteq> Some (js ''A''))"
    by blast
  with out sample_nonempty(7) have q: "reqUrl ?q = ACCESS_TOKEN_URL \<and>
      map_of (reqParams ?q) (js ''oauth_token'') = Some (js ''B'') \<and>
      map_of (reqParams ?q) (js ''oauth_token'') \<noteq> Some (js ''A'')"
    by simp
  have "pendingOAuth ?sA = Some \<lparr>token = js ''A'', secret = js ''SA''\<rparr>"
    and "pendingOAuth ?sB = Some \<lparr>token = js ''B'', secret = js ''SB''\<rparr>"
    by simp_all
  with a b out q show ?thesis by blast
qed

subsection \<open>Claim C8: \<open>saveConfig\<close> merges\<close>

text \<open>
  C8. \<open>saveConfig\<close> is a read-modify-write that merges. When the file holds the record
  \<open>c\<close>, the record written has, for each of the five fields, the update's value when the
  update has the field and the value of \<open>c\<close> otherwise: no field absent from the update
  is dropped or changed. When there is no readable file, the record written is the
  update itself. Saving \<open>{accessToken: "X"}\<close> over \<open>{clientId: "Y"}\<close> gives the record
  with exactly these two fields.
\<close>

theorem saveConfig_merges:
  "(\<exists>merged. saveConfig (Some c) updates = Some merged \<and>
      (\<forall>f \<in> set [cfg_clientId, cfg_clientSecret, cfg_consumerSecret, cfg_accessToken,
                   cfg_accessTokenSecret].
         (f updates = None \<longrightarrow> f merged = f c) \<and>
         (\<forall>v. f updates = Some v \<longrightarrow> f merged = Some v))) \<and>
   saveConfig None updates = Some updates \<and>
   saveConfig (Some (emptyConfig\<lparr>cfg_clientId := Some (js ''Y'')\<rparr>))
       (emptyConfig\<lparr>cfg_accessToken := Some (js ''X'')\<rparr>)
     = Some (emptyConfig\<lparr>cfg_clientId := Some (js ''Y''), cfg_accessToken := Some (js ''X'')\<rparr>)"
proof (intro conjI)
  let ?merged = "spreadConfig c updates"
  have "saveConfig (Some c) updates = Some ?merged"
    by (simp add: saveConfig_def readExisting_def)
  moreover have "\<forall>f \<in> set [cfg_clientId, cfg_clientSecret, cfg_consumerSecret, cfg_accessToken,
                   cfg_accessTokenSecret].
         (f updates = None \<longrightarrow> f ?merged = f c) \<and>
         (\<forall>v. f updates = Some v \<longrightarrow> f ?merged = Some v)"
    by (simp add: spreadConfig_def spreadField_def)
  ultimately show "\<exists>merged. saveConfig (Some c) updates = Some merged \<and>
      (\<forall>f \<in> set [cfg_clientId, cfg_clientSecret, cfg_consumerSecret, cfg_accessToken,
                   cfg_accessTokenSecret].
         (f updates = None \<longrightarrow> f merged = f c) \<and>
         (\<forall>v. f updates = Some v \<longrightarrow> f merged = Some v))"
    by blast
next
  show "saveConfig None updates = Some updates"
    by (cases updates)
      (simp add: saveConfig_def Let_def readExisting_def spreadConfig_def spreadField_def
        emptyConfig_def split: option.splits)
next
  show "saveConfig (Some (emptyConfig\<lparr>cfg_clientId := Some (js ''Y'')\<rparr>))
       (emptyConfig\<lparr>cfg_accessToken := Some (js ''X'')\<rparr>)
     = Some (emptyConfig\<lparr>cfg_clientId := Some (js ''Y''), cfg_accessToken := Some (js ''X'')\<rparr>)"
    by (simp add: saveConfig_def spreadConfig_def spreadField_def readExisting_def emptyConfig_def)
qed

text \<open>
  An instance through the theorem: the file holds the three API credentials and an old
  access token, the update a new access token and its secret. The credentials are kept,
  the old token is replaced and the secret is added.
\<close>

theorem saveConfig_merges_witness:
  "saveConfig
     (Some \<lparr>cfg_clientId = Some (js ''Y''), cfg_clientSecret = Some (js ''S''),
            cfg_consumerSecret = Some (js ''K''), cfg_accessToken = Some (js ''OLD''),
            cfg_accessTokenSecret = None\<rparr>)
     \<lparr>cfg_clientId = None, cfg_clientSecret = None, cfg_consumerSecret = None,
      cfg_accessToken = Some (js ''X''), cfg_accessTokenSecret = Some (js ''XS'')\<rparr>
   = Some \<lparr>cfg_clientId = Some (js ''Y''), cfg_clientSecret = Some (js ''S''),
           cfg_consumerSecret = Some (js ''K''), cfg_accessToken = Some (js ''X''),
           cfg_accessTokenSecret = Some (js ''XS'')\<rparr>"
proof -
  let ?c = "\<lparr>cfg_clientId = Some (js ''Y''), cfg_clientSecret = Some (js ''S''),
            cfg_consumerSecret = Some (js ''K''), cfg_accessToken = Some (js ''OLD''),
            cfg_accessTokenSecret = None\<rparr>"
  let ?upd = "\<lparr>cfg_clientId = None, cfg_clientSecret = None, cfg_consumerSecret = None,
      cfg_accessToken = Some (js ''X''), cfg_accessTokenSecret = Some (js ''XS'')\<rparr>"
  from saveConfig_merges [of ?c ?upd] obtain merged where
    m: "saveConfig (Some ?c) ?upd = Some merged" and
    f: "\<forall>f \<in> set [cfg_clientId, cfg_clientSecret, cfg_consumerSecret, cfg_accessToken,
                   cfg_accessTokenSecret].
         (f ?upd = None \<longrightarrow> f merged = f ?c) \<and>
         (\<forall>v. f ?upd = Some v \<longrightarrow> f merged = Some v)"
    by blast
  from f have "cfg_clientId merged = Some (js ''Y'')" "cfg_clientSecret merged = Some (js ''S'')"
    "cfg_consumerSecret merged = Some (js ''K'')" "cfg_accessToken merged = Some (js ''X'')"
    "cfg_accessTokenSecret merged = Some (js ''XS'')"
    by simp_all
  then have "merged = \<lparr>cfg_clientId = Some (js ''Y''), cfg_clientSecret = Some (js ''S''),
           cfg_consumerSecret = Some (js ''K''), cfg_accessToken = Some (js ''X''),
           cfg_accessTokenSecret = Some (js ''XS'')\<rparr>"
    by (cases merged) simp
  with m show ?thesis by simp
qed

subsection \<open>Claim C9: unknown and closed sessions\<close>

text \<open>
  C9 (as amended). For every non-empty session identifier that is not in the registry,
  never created or already closed, \<open>handleMcpRequest\<close> answers with the session-not-found
  response (status 404, JSON-RPC error -32000) and does not throw. Closing a session
  removes it from the registry and leaves the other sessions, so a request for it after
  the close gets the same answer. An absent or empty identifier is no identifier: the
  request starts a new session.
\<close>

theorem route_unknown_session:
  "(sid \<noteq> [] \<and> sessions sid = None \<longrightarrow>
      handleMcpRequest sessions (Some sid) = sessionNotFound) \<and>
   (sid \<noteq> [] \<longrightarrow>
      onclose sessions (Some sid) sid = None \<and>
      handleMcpRequest (onclose sessions (Some sid)) (Some sid) = sessionNotFound \<and>
      (\<forall>other. other \<noteq> sid \<longrightarrow> onclose sessions (Some sid) other = sessions other)) \<and>
   handleMcpRequest sessions None = NewSession \<and>
   handleMcpRequest sessions (Some []) = NewSession"
  by (simp add: handleMcpRequest_def onclose_def truthy_def orEmpty_def sessionNotFound_def)

text \<open>An identifier never created, and one created and closed.\<close>

theorem route_unknown_session_witness:
  "js ''s1'' \<noteq> [] \<and>
   (Map.empty :: unit sessions) (js ''s1'') = None \<and>
   handleMcpRequest (Map.empty :: unit sessions) (Some (js ''s1'')) = sessionNotFound \<and>
   onclose (onsessioninitialized Map.empty (js ''s1'') ()) (Some (js ''s1'')) (js ''s1'') = None \<and>
   handleMcpRequest (onclose (onsessioninitialized Map.empty (js ''s1'') ()) (Some (js ''s1'')))
     (Some (js ''s1'')) = sessionNotFound"
proof -
  have ne: "js ''s1'' \<noteq> []" by (simp add: js_def)
  have none: "(Map.empty :: unit sessions) (js ''s1'') = None" by simp
  from route_unknown_session [of "js ''s1''" "Map.empty :: unit sessions"] ne none
  have 1: "handleMcpRequest (Map.empty :: unit sessions) (Some (js ''s1'')) = sessionNotFound"
    by blast
  from route_unknown_session [of "js ''s1''" "onsessioninitialized Map.empty (js ''s1'') ()"] ne
  have 2: "onclose (onsessioninitialized Map.empty (js ''s1'') ()) (Some (js ''s1'')) (js ''s1'') = None \<and>
   handleMcpRequest (onclose (onsessioninitialized Map.empty (js ''s1'') ()) (Some (js ''s1'')))
     (Some (js ''s1'')) = sessionNotFound"
    by blast
  from ne none 1 2 show ?thesis by blast
qed

text \<open>
  The claim as first stated fails at the empty identifier, which is not in the registry
  and is not answered with session-not-found.
\<close>

theorem route_empty_identifier_counterexample:
  "(Map.empty :: unit sessions) [] = None \<and>
   handleMcpRequest (Map.empty :: unit sessions) (Some []) \<noteq> sessionNotFound"
  by (simp add: handleMcpRequest_def truthy_def sessionNotFound_def)

subsection \<open>Claim C10: \<open>setup_credentials\<close> keeps the user access token\<close>

text \<open>
  C10 (as amended). \<open>setup_credentials\<close> sets the client id, the client secret, the
  consumer key and the consumer secret, and writes the three values to the
  configuration file, whose token fields keep their values; the user access token, its
  secret and the pending request token of the server are unchanged. It clears the
  cached OAuth2 token and sets its expiry to zero. When the three new values are not
  empty, the next call for a token sends a grant with the new client id and secret, and
  the next public call sends that grant and then its request with the new bearer token.
  When one of them is empty, the next call fails as not configured and sends nothing.
\<close>

theorem setup_credentials_keeps_user_token:
  "setup_credentials s file client_id client_secret consumer_secret = (s', file') \<longrightarrow>
     accessToken (oauth1Credentials s') = accessToken (oauth1Credentials s) \<and>
     accessTokenSecret (oauth1Credentials s') = accessTokenSecret (oauth1Credentials s) \<and>
     pendingOAuth s' = pendingOAuth s \<and>
     clientId s' = client_id \<and> clientSecret s' = client_secret \<and>
     consumerKey (oauth1Credentials s') = client_id \<and>
     consumerSecret (oauth1Credentials s') = consumer_secret \<and>
     oauth2Token s' = None \<and> oauth2TokenExpiry s' = 0 \<and>
     (\<exists>saved. file' = Some saved \<and>
        cfg_clientId saved = Some client_id \<and>
        cfg_clientSecret saved = Some client_secret \<and>
        cfg_consumerSecret saved = Some consumer_secret \<and>
        cfg_accessToken saved = cfg_accessToken (readExisting file) \<and>
        cfg_accessTokenSecret saved = cfg_accessTokenSecret (readExisting file)) \<and>
     (client_id \<noteq> [] \<and> client_secret \<noteq> [] \<and> consumer_secret \<noteq> [] \<longrightarrow>
        (\<forall>now. getOAuth2Token_begin s' now = Fetching (tokenRequest s')) \<and>
        map_of (reqParams (tokenRequest s')) (js ''client_id'') = Some client_id \<and>
        map_of (reqParams (tokenRequest s')) (js ''client_secret'') = Some client_secret \<and>
        (\<forall>req now data now' apiResp.
           publicClient_request s' req now (grantResponse data) now' apiResp =
             (Inr apiResp,
              s'\<lparr>oauth2Token := Some (access_token data),
                 oauth2TokenExpiry := now' + (expires_in data - 60) * 1000\<rparr>,
              [tokenRequest s',
               req\<lparr>reqAuthorization := Some (js ''Bearer '' @ access_token data)\<rparr>]))) \<and>
     (client_id = [] \<or> client_secret = [] \<or> consumer_secret = [] \<longrightarrow>
        (\<forall>now resp now'. getOAuth2Token s' now resp now' = (Inl NotConfigured, s', [])))"
proof
  assume a: "setup_credentials s file client_id client_secret consumer_secret = (s', file')"
  then have s': "s' = s\<lparr>clientId := client_id, clientSecret := client_secret,
                 oauth1Credentials :=
                   (oauth1Credentials s)\<lparr>consumerKey := client_id,
                                          consumerSecret := consumer_secret\<rparr>,
                 oauth2Token := None, oauth2TokenExpiry := 0\<rparr>"
    and f': "file' = saveConfig file
                (emptyConfig\<lparr>cfg_clientId := Some client_id,
                              cfg_clientSecret := Some client_secret,
                              cfg_consumerSecret := Some consumer_secret\<rparr>)"
    by (simp_all add: setup_credentials_def Let_def)
  have h: "hasApiCredentials s' \<longleftrightarrow>
      client_id \<noteq> [] \<and> client_secret \<noteq> [] \<and> consumer_secret \<noteq> []"
    by (simp add: s' hasApiCredentials_def)
  have t: "\<not> truthy (oauth2Token s')"
    by (simp add: s' truthy_def)
  have names: "js ''client_id'' \<noteq> js ''grant_type''" "js ''client_secret'' \<noteq> js ''grant_type''"
    "js ''client_secret'' \<noteq> js ''client_id''"
    by (simp_all add: js_def)
  have 1: "accessToken (oauth1Credentials s') = accessToken (oauth1Credentials s) \<and>
     accessTokenSecret (oauth1Credentials s') = accessTokenSecret (oauth1Credentials s) \<and>
     pendingOAuth s' = pendingOAuth s \<and>
     clientId s' = client_id \<and> clientSecret s' = client_secret \<and>
     consumerKey (oauth1Credentials s') = client_id \<and>
     consumerSecret (oauth1Credentials s') = consumer_secret \<and>
     oauth2Token s' = None \<and> oauth2TokenExpiry s' = 0"
    by (simp add: s')
  have 2: "\<exists>saved. file' = Some saved \<and>
        cfg_clientId saved = Some client_id \<and>
        cfg_clientSecret saved = Some client_secret \<and>
        cfg_consumerSecret saved = Some consumer_secret \<and>
        cfg_accessToken saved = cfg_accessToken (readExisting file) \<and>
        cfg_accessTokenSecret saved = cfg_accessTokenSecret (readExisting file)"
    by (simp add: f' saveConfig_def Let_def spreadConfig_def spreadField_def emptyConfig_def)
  have 3: "client_id \<noteq> [] \<and> client_secret \<noteq> [] \<and> consumer_secret \<noteq> [] \<longrightarrow>
        (\<forall>now. getOAuth2Token_begin s' now = Fetching (tokenRequest s')) \<and>
        map_of (reqParams (tokenRequest s')) (js ''client_id'') = Some client_id \<and>
        map_of (reqParams (tokenRequest s')) (js ''client_secret'') = Some client_secret \<and>
        (\<forall>req now data now' apiResp.
           publicClient_request s' req now (grantResponse data) now' apiResp =
             (Inr apiResp,
              s'\<lparr>oauth2Token := Some (access_token data),
                 oauth2TokenExpiry := now' + (expires_in data - 60) * 1000\<rparr>,
              [tokenRequest s',
               req\<lparr>reqAuthorization := Some (js ''Bearer '' @ access_token data)\<rparr>]))"
  proof
    assume ne: "client_id \<noteq> [] \<and> client_secret \<noteq> [] \<and> consumer_secret \<noteq> []"
    with h have hc: "hasApiCredentials s'" by simp
    with t have b: "\<forall>now. getOAuth2Token_begin s' now = Fetching (tokenRequest s')"
      by (simp add: getOAuth2Token_begin_def ensureApiCredentials_def)
    have p: "map_of (reqParams (tokenRequest s')) (js ''client_id'') = Some client_id"
      "map_of (reqParams (tokenRequest s')) (js ''client_secret'') = Some client_secret"
      using 1 by (simp_all add: tokenRequest_def names)
    from b have "\<forall>req now data now' apiResp.
           publicClient_request s' req now (grantResponse data) now' apiResp =
             (Inr apiResp,
              s'\<lparr>oauth2Token := Some (access_token data),
                 oauth2TokenExpiry := now' + (expires_in data - 60) * 1000\<rparr>,
              [tokenRequest s',
               req\<lparr>reqAuthorization := Some (js ''Bearer '' @ access_token data)\<rparr>])"
      by (simp add: publicClient_request_def getOAuth2Token_def getOAuth2Token_resume_def
          grantResponse_def)
    with b p show "(\<forall>now. getOAuth2Token_begin s' now = Fetching (tokenRequest s')) \<and>
        map_of (reqParams (tokenRequest s')) (js ''client_id'') = Some client_id \<and>
        map_of (reqParams (tokenRequest s')) (js ''client_secret'') = Some client_secret \<and>
        (\<forall>req now data now' apiResp.
           publicClient_request s' req now (grantResponse data) now' apiResp =
             (Inr apiResp,
              s'\<lparr>oauth2Token := Some (access_token data),
                 oauth2TokenExpiry := now' + (expires_in data - 60) * 1000\<rparr>,
              [tokenRequest s',
               req\<lparr>reqAuthorization := Some (js ''Bearer '' @ access_token data)\<rparr>]))"
      by blast
  qed
  have 4: "client_id = [] \<or> client_secret = [] \<or> consumer_secret = [] \<longrightarrow>
        (\<forall>now resp now'. getOAuth2Token s' now resp now' = (Inl NotConfigured, s', []))"
    using h by (auto simp: getOAuth2Token_def getOAuth2Token_begin_def ensureApiCredentials_def)
  from 1 2 3 4 show "accessToken (oauth1Credentials s') = accessToken (oauth1Credentials s) \<and>
     accessTokenSecret (oauth1Credentials s') = accessTokenSecret (oauth1Credentials s) \<and>
     pendingOAuth s' = pendingOAuth s \<and>
     clientId s' = client_id \<and> clientSecret s' = client_secret \<and>
     consumerKey (oauth1Credentials s') = client_id \<and>
     consumerSecret (oauth1Credentials s') = consumer_secret \<and>
     oauth2Token s' = None \<and> oauth2TokenExpiry s' = 0 \<and>
     (\<exists>saved. file' = Some saved \<and>
        cfg_clientId saved = Some client_id \<and>
        cfg_clientSecret saved = Some client_secret \<and>
        cfg_consumerSecret saved = Some consumer_secret \<and>
        cfg_accessToken saved = cfg_accessToken (readExisting file) \<and>
        cfg_accessTokenSecret saved = cfg_accessTokenSecret (readExisting file)) \<and>
     (client_id \<noteq> [] \<and> client_secret \<noteq> [] \<and> consumer_secret \<noteq> [] \<longrightarrow>
        (\<forall>now. getOAuth2Token_begin s' now = Fetching (tokenRequest s')) \<and>
        map_of (reqParams (tokenRequest s')) (js ''client_id'') = Some client_id \<and>
        map_of (reqParams (tokenRequest s')) (js ''client_secret'') = Some client_secret \<and>
        (\<forall>req now data now' apiResp.
           publicClient_request s' req now (grantResponse data) now' apiResp =
             (Inr apiResp,
              s'\<lparr>oauth2Token := Some (access_token data),
                 oauth2TokenExpiry := now' + (expires_in data - 60) * 1000\<rparr>,
              [tokenRequest s',
               req\<lparr>reqAuthorization := Some (js ''Bearer '' @ access_token data)\<rparr>]))) \<and>
     (client_id = [] \<or> client_secret = [] \<or> consumer_secret = [] \<longrightarrow>
        (\<forall>now resp now'. getOAuth2Token s' now resp now' = (Inl NotConfigured, s', [])))"
    by blast
qed

text \<open>The authorized server with a cached bearer token, given three new values.\<close>

theorem setup_credentials_keeps_user_token_witness:
  "\<exists>s' saved.
     setup_credentials sampleAuthorizedCached None (js ''id2'') (js ''sec2'') (js ''cs2'')
       = (s', Some saved) \<and>
     accessToken (oauth1Credentials s') = Some (js ''AT'') \<and>
     accessTokenSecret (oauth1Credentials s') = Some (js ''ATS'') \<and>
     consumerKey (oauth1Credentials s') = js ''id2'' \<and>
     consumerSecret (oauth1Credentials s') = js ''cs2'' \<and>
     oauth2Token s' = None \<and> oauth2TokenExpiry s' = 0 \<and>
     cfg_clientId saved = Some (js ''id2'') \<and>
     getOAuth2Token_begin s' 5 = Fetching (tokenRequest s') \<and>
     map_of (reqParams (tokenRequest s')) (js ''client_id'') = Some (js ''id2'')"
proof -
  obtain s' file' where
    a: "setup_credentials sampleAuthorizedCached None (js ''id2'') (js ''sec2'') (js ''cs2'')
       = (s', file')"
    by (cases "setup_credentials sampleAuthorizedCached None (js ''id2'') (js ''sec2'') (js ''cs2'')")
  have ne: "js ''id2'' \<noteq> [] \<and> js ''sec2'' \<noteq> [] \<and> js ''cs2'' \<noteq> []"
    by (simp add: js_def)
  have tok: "accessToken (oauth1Credentials sampleAuthorizedCached) = Some (js ''AT'')"
    "accessTokenSecret (oauth1Credentials sampleAuthorizedCached) = Some (js ''ATS'')"
    by (simp_all add: sampleAuthorizedCached_def sampleAuthorized_def)
  note th = setup_credentials_keeps_user_token
    [of sampleAuthorizedCached None "js ''id2''" "js ''sec2''" "js ''cs2''" s' file']
  from th a ne obtain saved where
    "file' = Some saved" "cfg_clientId saved = Some (js ''id2'')"
    by blast
  moreover from th a ne tok have
    "accessToken (oauth1Credentials s') = Some (js ''AT'')"
    "accessTokenSecret (oauth1Credentials s') = Some (js ''ATS'')"
    "consumerKey (oauth1Credentials s') = js ''id2''"
    "consumerSecret (oauth1Credentials s') = js ''cs2''"
    "oauth2Token s' = None" "oauth2TokenExpiry s' = 0"
    "getOAuth2Token_begin s' 5 = Fetching (tokenRequest s')"
    "map_of (reqParams (tokenRequest s')) (js ''client_id'') = Some (js ''id2'')"
    by simp_all
  ultimately show ?thesis using a by blast
qed

text \<open>
  The claim as first stated fails when a new value is empty, here the consumer secret:
  the next call for a token makes no grant.
\<close>

theorem setup_credentials_empty_counterexample:
  "truthy (accessToken (oauth1Credentials sampleAuthorizedCached)) \<and>
   getOAuth2Token
     (fst (setup_credentials sampleAuthorizedCached None (js ''id2'') (js ''sec2'') []))
     5 (grantResponse sampleGrant) 6
     = (Inl NotConfigured,
        fst (setup_credentials sampleAuthorizedCached None (js ''id2'') (js ''sec2'') []), [])"
  by (simp add: setup_credentials_def Let_def getOAuth2Token_def getOAuth2Token_begin_def
      ensureApiCredentials_def hasApiCredentials_def sampleAuthorizedCached_def
      sampleAuthorized_def truthy_def js_def)

end
